theory Spec2Isabelle
  imports Complex_Main
begin

section \<open>Values, errors and containers\<close>

text \<open>
  A value of the C++ type \<open>double\<close>, without rounding: a real number, one of the two
  infinities, or the not-a-number value. The model has a single zero, read as \<open>+0.0\<close>:
  every divisor of the program that can be zero is a norm, a power of a norm or a count.
\<close>

datatype double = Num real | PInf | NInf | NaN

fun dneg :: "double \<Rightarrow> double" where
  "dneg (Num x) = Num (- x)"
| "dneg PInf = NInf"
| "dneg NInf = PInf"
| "dneg NaN = NaN"

fun dadd :: "double \<Rightarrow> double \<Rightarrow> double" where
  "dadd (Num x) (Num y) = Num (x + y)"
| "dadd NaN b = NaN"
| "dadd a NaN = NaN"
| "dadd PInf NInf = NaN"
| "dadd NInf PInf = NaN"
| "dadd PInf b = PInf"
| "dadd NInf b = NInf"
| "dadd a PInf = PInf"
| "dadd a NInf = NInf"

definition dsub :: "double \<Rightarrow> double \<Rightarrow> double" where
  "dsub a b = dadd a (dneg b)"

fun dmul :: "double \<Rightarrow> double \<Rightarrow> double" where
  "dmul (Num x) (Num y) = Num (x * y)"
| "dmul NaN b = NaN"
| "dmul a NaN = NaN"
| "dmul (Num x) b = (if x = 0 then NaN else if x < 0 then dneg b else b)"
| "dmul a (Num y) = (if y = 0 then NaN else if y < 0 then dneg a else a)"
| "dmul PInf b = b"
| "dmul NInf b = dneg b"

fun ddiv :: "double \<Rightarrow> double \<Rightarrow> double" where
  "ddiv (Num x) (Num y) =
     (if y \<noteq> 0 then Num (x / y)
      else if x = 0 then NaN else if x < 0 then NInf else PInf)"
| "ddiv NaN b = NaN"
| "ddiv a NaN = NaN"
| "ddiv (Num x) b = Num 0"
| "ddiv PInf (Num y) = (if y < 0 then NInf else PInf)"
| "ddiv NInf (Num y) = (if y < 0 then PInf else NInf)"
| "ddiv a b = NaN"

fun dsqrt :: "double \<Rightarrow> double" where
  "dsqrt (Num x) = (if x < 0 then NaN else Num (sqrt x))"
| "dsqrt PInf = PInf"
| "dsqrt a = NaN"

text \<open>\<open>std::pow(d, 3.0)\<close>\<close>

fun dpow3 :: "double \<Rightarrow> double" where
  "dpow3 (Num x) = Num (x ^ 3)"
| "dpow3 a = a"

fun dacos :: "double \<Rightarrow> double" where
  "dacos (Num x) = (if - 1 \<le> x \<and> x \<le> 1 then Num (arccos x) else NaN)"
| "dacos a = NaN"

text \<open>The comparison \<open>a < b\<close> of two doubles: false as soon as one side is not a number.\<close>

fun dless :: "double \<Rightarrow> double \<Rightarrow> bool" where
  "dless (Num x) (Num y) = (x < y)"
| "dless NaN b = False"
| "dless a NaN = False"
| "dless a NInf = False"
| "dless PInf b = False"
| "dless a b = True"

text \<open>
  The ways in which the code stops: an index or a size that fails an assertion of Eigen,
  the error \<open>Cannot access data file.\<close>, and the exception \<open>std::invalid_argument\<close>
  of \<open>std::stod\<close>.
\<close>

datatype error =
    IndexOutOfRange
  | InvalidSize
  | CannotAccessDataFile
  | StodInvalidArgument

definition ebind :: "error + 'a \<Rightarrow> ('a \<Rightarrow> error + 'b) \<Rightarrow> error + 'b" where
  "ebind m f = (case m of Inl e \<Rightarrow> Inl e | Inr v \<Rightarrow> f v)"

fun efold :: "('a \<Rightarrow> 's \<Rightarrow> error + 's) \<Rightarrow> 'a list \<Rightarrow> 's \<Rightarrow> error + 's" where
  "efold f [] s = Inr s"
| "efold f (x # xs) s = ebind (f x s) (efold f xs)"

text \<open>
  \<open>Eigen::VectorXd\<close> is a list of doubles. Reading a coefficient out of range fails
  Eigen's index assertion.
\<close>

type_synonym vector = "double list"

definition vcoeff :: "vector \<Rightarrow> int \<Rightarrow> error + double" where
  "vcoeff v i =
     (if 0 \<le> i \<and> i < int (length v) then Inr (v ! nat i) else Inl IndexOutOfRange)"

definition vset :: "vector \<Rightarrow> int \<Rightarrow> double \<Rightarrow> error + vector" where
  "vset v i x =
     (if 0 \<le> i \<and> i < int (length v) then Inr (v[nat i := x]) else Inl IndexOutOfRange)"

definition vsum :: "vector \<Rightarrow> double" where
  "vsum v = foldl dadd (Num 0) v"

definition vnorm :: "vector \<Rightarrow> double" where
  "vnorm v = dsqrt (vsum (map (\<lambda>x. dmul x x) v))"

definition vdot :: "vector \<Rightarrow> vector \<Rightarrow> double" where
  "vdot u v = vsum (map (\<lambda>(x, y). dmul x y) (zip u v))"

text \<open>\<open>Eigen::MatrixXd\<close>: the two dimensions and the coefficients.\<close>

record matrix =
  rows :: nat
  cols :: nat
  elems :: "nat \<Rightarrow> nat \<Rightarrow> double"

definition in_range :: "matrix \<Rightarrow> int \<Rightarrow> int \<Rightarrow> bool" where
  "in_range M i j \<longleftrightarrow> 0 \<le> i \<and> i < int (rows M) \<and> 0 \<le> j \<and> j < int (cols M)"

definition mconst :: "int \<Rightarrow> int \<Rightarrow> double \<Rightarrow> error + matrix" where
  "mconst r c x =
     (if r < 0 \<or> c < 0 then Inl InvalidSize
      else Inr \<lparr>rows = nat r, cols = nat c, elems = (\<lambda>i j. x)\<rparr>)"

definition mcoeff :: "matrix \<Rightarrow> int \<Rightarrow> int \<Rightarrow> error + double" where
  "mcoeff M i j =
     (if in_range M i j then Inr (elems M (nat i) (nat j)) else Inl IndexOutOfRange)"

definition mupdate :: "matrix \<Rightarrow> int \<Rightarrow> int \<Rightarrow> double \<Rightarrow> error + matrix" where
  "mupdate M i j x =
     (if in_range M i j
      then Inr (M\<lparr>elems := (elems M)(nat i := (elems M (nat i))(nat j := x))\<rparr>)
      else Inl IndexOutOfRange)"

definition mrow :: "matrix \<Rightarrow> int \<Rightarrow> error + vector" where
  "mrow M i =
     (if 0 \<le> i \<and> i < int (rows M) then Inr (map (elems M (nat i)) [0..<cols M])
      else Inl IndexOutOfRange)"

definition mcol :: "matrix \<Rightarrow> int \<Rightarrow> error + vector" where
  "mcol M j =
     (if 0 \<le> j \<and> j < int (cols M) then Inr (map (\<lambda>i. elems M i (nat j)) [0..<rows M])
      else Inl IndexOutOfRange)"

definition msum :: "matrix \<Rightarrow> double" where
  "msum M = vsum (concat (map (\<lambda>j. map (\<lambda>i. elems M i j) [0..<rows M]) [0..<cols M]))"

text \<open>\<open>std::to_string\<close> of an \<open>int\<close>: the decimal digits, with a sign when negative.\<close>

fun digits :: "nat \<Rightarrow> string" where
  "digits n =
     (if n < 10 then [''0123456789'' ! n]
      else digits (n div 10) @ [''0123456789'' ! (n mod 10)])"

definition to_string :: "int \<Rightarrow> string" where
  "to_string i = (if i < 0 then CHR ''-'' # digits (nat (- i)) else digits (nat i))"

text \<open>The conversion of an \<open>int\<close> to \<open>std::size_t\<close> (64 bits): a negative value wraps.\<close>

definition size_t_of :: "int \<Rightarrow> nat" where
  "size_t_of i = nat (i mod 2 ^ 64)"

section \<open>Circuits\<close>

text \<open>
  What the circuit builders use of the framework's instruction graph: an instruction has
  a gate name, the qubits it acts on and its parameters (a number, or the name of a
  variable); a composite instruction has a name, its instructions in the order they were
  added, and its variables in the order they were added.
\<close>

datatype parameter = Value double | Variable string

datatype instruction = Instruction string "nat list" "parameter list"

record composite =
  cname :: string
  instructions :: "instruction list"
  variables :: "string list"

definition createComposite :: "string \<Rightarrow> composite" where
  "createComposite n = \<lparr>cname = n, instructions = [], variables = []\<rparr>"

definition addInstruction :: "instruction \<Rightarrow> composite \<Rightarrow> composite" where
  "addInstruction i c = c\<lparr>instructions := instructions c @ [i]\<rparr>"

definition addVariable :: "string \<Rightarrow> composite \<Rightarrow> composite" where
  "addVariable v c = c\<lparr>variables := variables c @ [v]\<rparr>"

definition addVariables :: "string list \<Rightarrow> composite \<Rightarrow> composite" where
  "addVariables vs c = c\<lparr>variables := variables c @ vs\<rparr>"

definition nVariables :: "composite \<Rightarrow> nat" where
  "nVariables c = length (variables c)"

definition nInstructions :: "composite \<Rightarrow> nat" where
  "nInstructions c = length (instructions c)"

text \<open>The instructions that the builders create through the instruction provider.\<close>

definition Ry :: "nat \<Rightarrow> parameter \<Rightarrow> instruction" where
  "Ry q p = Instruction ''Ry'' [q] [p]"

definition H :: "nat \<Rightarrow> instruction" where
  "H q = Instruction ''H'' [q] []"

definition CNOT :: "nat \<Rightarrow> nat \<Rightarrow> instruction" where
  "CNOT control target = Instruction ''CNOT'' [control, target] []"

section \<open>The algorithm object\<close>

text \<open>A Pauli term of the Hamiltonian: the sites with their operators, and the coefficient.\<close>

type_synonym pauli_term = "(int \<times> string) list \<times> double"

text \<open>
  The data members of \<open>MC_VQE\<close> that the code under study reads or writes. The
  optimizer, the accelerator and the gradient strategy are external services; the
  functions that use them take them as arguments.
\<close>

record mc_vqe =
  nChromophores :: int
  nStates :: int
  isCyclic :: bool
  doInterference :: bool
  tnqvmLog :: bool
  logLevel :: int
  dataPath :: string
  CISGateAngles :: matrix
  CISEigenstates :: matrix
  observable :: "pauli_term list"

text \<open>
  Modelled from the spec: \<open>NPARAMSENTANGLER\<close>, a constant of the header
  \<open>mc-vqe.hpp\<close>, which is not among the sources; the spec gives every entangling block
  exactly 4 trainable parameters, and \<open>entanglerGate\<close> uses four consecutive names.
\<close>

definition NPARAMSENTANGLER :: int where
  "NPARAMSENTANGLER = 4"

subsection \<open>\<open>MC_VQE::statePreparationCircuit\<close>\<close>

text \<open>The body of the loop over \<open>i = 1 .. nChromophores - 1\<close>: one Fy gate.\<close>

definition fy_gate :: "vector \<Rightarrow> nat \<Rightarrow> composite \<Rightarrow> error + composite" where
  "fy_gate angles i c0 =
     ebind (vcoeff angles (int i)) (\<lambda>a.
       let control = i - 1; target = i;
           c1 = addInstruction (Ry target (Value (ddiv (dneg a) (Num 2)))) c0;
           c2 = addInstruction (H target) c1;
           c3 = addInstruction (CNOT control target) c2;
           c4 = addInstruction (H target) c3;
           c5 = addInstruction (Ry target (Value (ddiv a (Num 2)))) c4
       in Inr c5)"

text \<open>
  The wall of CNOTs: \<open>i\<close> runs from \<open>nChromophores - 2\<close> down to 0 and, for each
  \<open>i\<close>, \<open>j\<close> runs from \<open>nChromophores - 1\<close> down to \<open>i + 1\<close>.
\<close>

definition cnot_wall :: "nat \<Rightarrow> composite \<Rightarrow> composite" where
  "cnot_wall n c =
     fold (\<lambda>i. fold (\<lambda>j. addInstruction (CNOT j i)) (rev [Suc i..<n])) (rev [0..<n - 1]) c"

definition statePreparationCircuit :: "mc_vqe \<Rightarrow> vector \<Rightarrow> error + composite" where
  "statePreparationCircuit self angles =
     ebind (vcoeff angles 0) (\<lambda>a0.
       let c0 = addInstruction (Ry 0 (Value a0)) (createComposite ''mcvqeCircuit'')
       in ebind (efold (fy_gate angles) [1..<nat (nChromophores self)] c0) (\<lambda>c1.
            Inr (cnot_wall (nat (nChromophores self)) c1)))"

subsection \<open>\<open>MC_VQE::entanglerCircuit\<close>\<close>

definition paramLetter :: string where
  "paramLetter = ''x''"

definition entanglerGate :: "nat \<Rightarrow> nat \<Rightarrow> int \<Rightarrow> composite \<Rightarrow> composite" where
  "entanglerGate control target paramCounter c0 =
     (let c1 = addInstruction (CNOT control target) c0;
          c2 = addVariable (paramLetter @ to_string paramCounter) c1;
          c3 = addInstruction (Ry control (Variable (paramLetter @ to_string paramCounter))) c2;
          c4 = addVariable (paramLetter @ to_string (paramCounter + 1)) c3;
          c5 = addInstruction
                 (Ry target (Variable (paramLetter @ to_string (paramCounter + 1)))) c4;
          c6 = addInstruction (CNOT control target) c5;
          c7 = addVariable (paramLetter @ to_string (paramCounter + 2)) c6;
          c8 = addInstruction
                 (Ry control (Variable (paramLetter @ to_string (paramCounter + 2)))) c7;
          c9 = addVariable (paramLetter @ to_string (paramCounter + 3)) c8;
          c10 = addInstruction
                  (Ry target (Variable (paramLetter @ to_string (paramCounter + 3)))) c9
      in c10)"

text \<open>The first loop: one free rotation per site; the state is the counter and the circuit.\<close>

definition first_ry :: "nat \<Rightarrow> int \<times> composite \<Rightarrow> int \<times> composite" where
  "first_ry i = (\<lambda>(paramCounter, c).
     (paramCounter + 1,
      addInstruction (Ry i (Variable (paramLetter @ to_string paramCounter)))
        (addVariable (paramLetter @ to_string paramCounter) c)))"

text \<open>
  The inner loop of a layer, \<open>for (int i = layer; i < nChromophores - layer; i += 2)\<close>,
  entered at \<open>i\<close> with the bound \<open>nChromophores - layer\<close>.
\<close>

function layer_loop :: "int \<Rightarrow> int \<Rightarrow> int \<times> composite \<Rightarrow> int \<times> composite" where
  "layer_loop i bound (paramCounter, c) =
     (if i < bound
      then layer_loop (i + 2) bound
             (paramCounter + NPARAMSENTANGLER,
              entanglerGate (size_t_of i) (size_t_of (i + 1)) paramCounter c)
      else (paramCounter, c))"
  by pat_completeness auto
termination
  by (relation "measure (\<lambda>(i, bound, st). nat (bound - i))") auto

definition entanglerCircuit :: "mc_vqe \<Rightarrow> composite" where
  "entanglerCircuit self =
     (let st0 = fold first_ry [0..<nat (nChromophores self)]
                  (0, createComposite ''mcvqeCircuit'');
          st1 = fold (\<lambda>layer. layer_loop layer (nChromophores self - layer)) [0, 1] st0
      in if isCyclic self
         then entanglerGate (size_t_of (nChromophores self - 1)) 0 (fst st1) (snd st1)
         else snd st1)"

subsection \<open>The neighbour lists of \<open>MC_VQE::preProcessing\<close>\<close>

text \<open>
  \<open>pairs[A]\<close> as the loop over \<open>A\<close> fills it; the entries are \<open>int\<close>s, so
  \<open>A - 1\<close> at \<open>A = 0\<close> is \<open>-1\<close>.
\<close>

definition pairs_of :: "mc_vqe \<Rightarrow> int \<Rightarrow> int list" where
  "pairs_of self A =
     (if A = 0 \<and> isCyclic self then [A + 1, nChromophores self - 1]
      else if A = nChromophores self - 1 then [A - 1, 0]
      else [A - 1, A + 1])"

definition pairs :: "mc_vqe \<Rightarrow> int list list" where
  "pairs self = map (\<lambda>A. pairs_of self (int A)) [0..<nat (nChromophores self)]"

section \<open>Preprocessing\<close>

subsection \<open>Reading the data file\<close>

text \<open>
  What the code uses of \<open>std::ifstream\<close>: the characters that are left to read and three
  of the state flags. Opening a file that cannot be opened sets \<open>failbit\<close>; \<open>bad()\<close>
  tests \<open>badbit\<close> alone.
\<close>

record ifstream =
  remaining :: string
  eofbit :: bool
  failbit :: bool
  badbit :: bool

definition newline :: char where
  "newline = CHR 0x0A"

text \<open>
  What preprocessing takes from outside the class: the files that can be opened, with
  their content; \<open>std::stod\<close>, which has no value when it throws; the unit conversion
  constants of the header \<open>mc-vqe.hpp\<close>, which is not among the sources; and the
  eigenvectors that the self-adjoint eigenvalue solver computes.
\<close>

record environment =
  files :: "string \<Rightarrow> string option"
  stod :: "string \<Rightarrow> double option"
  ANGSTROM2BOHR :: double
  DEBYE2AU :: double
  eigenvectors :: "matrix \<Rightarrow> matrix"

definition open_ifstream :: "environment \<Rightarrow> string \<Rightarrow> ifstream" where
  "open_ifstream env path =
     (case files env path of
        None \<Rightarrow> \<lparr>remaining = [], eofbit = False, failbit = True, badbit = False\<rparr>
      | Some content \<Rightarrow>
          \<lparr>remaining = content, eofbit = False, failbit = False, badbit = False\<rparr>)"

definition bad :: "ifstream \<Rightarrow> bool" where
  "bad file = badbit file"

text \<open>
  \<open>std::getline(file, line)\<close>. On a stream that is not good nothing is read, the string
  keeps its value and \<open>failbit\<close> is set. Otherwise the string becomes the characters up to
  the next newline, which is taken from the stream and dropped. When the end of the file
  comes first, the string is what was left and \<open>eofbit\<close> is set, and \<open>failbit\<close> too if
  nothing was left.
\<close>

definition getline :: "ifstream \<times> string \<Rightarrow> ifstream \<times> string" where
  "getline = (\<lambda>(file, line).
     if eofbit file \<or> failbit file \<or> badbit file then (file\<lparr>failbit := True\<rparr>, line)
     else if newline \<in> set (remaining file)
     then (file\<lparr>remaining := tl (dropWhile (\<lambda>c. c \<noteq> newline) (remaining file))\<rparr>,
           takeWhile (\<lambda>c. c \<noteq> newline) (remaining file))
     else (file\<lparr>remaining := [], eofbit := True, failbit := (remaining file = [])\<rparr>,
           remaining file))"

text \<open>
  \<open>line.substr(line.find(":") + 1)\<close>: what follows the first colon; without a colon,
  \<open>find\<close> gives \<open>npos\<close>, \<open>npos + 1\<close> is 0, and the result is the whole line.
\<close>

definition after_colon :: "string \<Rightarrow> string" where
  "after_colon line =
     (if CHR '':'' \<in> set line then tl (dropWhile (\<lambda>c. c \<noteq> CHR '':'') line) else line)"

text \<open>
  The components that \<open>while (std::getline(stream, comp, ','))\<close> reads from a string
  stream: the pieces between the commas, without an empty piece at the end.
\<close>

function components :: "string \<Rightarrow> string list" where
  "components s =
     (if s = [] then []
      else takeWhile (\<lambda>c. c \<noteq> CHR '','') s #
           (case dropWhile (\<lambda>c. c \<noteq> CHR '','') s of [] \<Rightarrow> [] | c # r \<Rightarrow> components r))"
  by pat_completeness auto
termination
proof (relation "measure length")
  show "wf (measure length)" by simp
next
  fix s :: string and c r
  assume "s \<noteq> []" and eq: "dropWhile (\<lambda>c. c \<noteq> CHR '','') s = c # r"
  have "length (c # r) \<le> length s"
    unfolding eq [symmetric] by (rule length_dropWhile_le)
  then show "(r, s) \<in> measure length" by simp
qed

text \<open>The six containers that the loop over the sites fills.\<close>

record site_data =
  energiesGS :: vector
  energiesES :: vector
  dipoleGS :: matrix
  dipoleES :: matrix
  dipoleT :: matrix
  com :: matrix

text \<open>\<open>energies(A) = std::stod(line.substr(line.find(":") + 1))\<close>\<close>

definition read_energy :: "environment \<Rightarrow> string \<Rightarrow> vector \<Rightarrow> int \<Rightarrow> error + vector" where
  "read_energy env line v A =
     (case stod env (after_colon line) of
        None \<Rightarrow> Inl StodInvalidArgument
      | Some x \<Rightarrow> vset v A x)"

text \<open>The loop over the components of a line, which writes \<open>M(A, xyz)\<close> and counts \<open>xyz\<close> up.\<close>

definition read_component ::
  "environment \<Rightarrow> int \<Rightarrow> string \<Rightarrow> matrix \<times> int \<Rightarrow> error + matrix \<times> int" where
  "read_component env A component = (\<lambda>(M, xyz).
     case stod env component of
       None \<Rightarrow> Inl StodInvalidArgument
     | Some x \<Rightarrow> ebind (mupdate M A xyz x) (\<lambda>M'. Inr (M', xyz + 1)))"

definition read_vector :: "environment \<Rightarrow> string \<Rightarrow> matrix \<Rightarrow> int \<Rightarrow> error + matrix" where
  "read_vector env line M A =
     ebind (efold (read_component env A) (components (after_colon line)) (M, 0))
       (\<lambda>(M', xyz). Inr M')"

text \<open>The body of the loop over the sites: eight lines of the file.\<close>

definition read_site ::
  "environment \<Rightarrow> nat \<Rightarrow> (ifstream \<times> string) \<times> site_data \<Rightarrow>
   error + (ifstream \<times> string) \<times> site_data" where
  "read_site env A = (\<lambda>(fl, d).
     let fl1 = getline (getline fl)
     in ebind (read_energy env (snd fl1) (energiesGS d) (int A)) (\<lambda>gs.
        let fl2 = getline fl1
        in ebind (read_energy env (snd fl2) (energiesES d) (int A)) (\<lambda>es.
           let fl3 = getline fl2
           in ebind (read_vector env (snd fl3) (com d) (int A)) (\<lambda>c.
              let fl4 = getline fl3
              in ebind (read_vector env (snd fl4) (dipoleGS d) (int A)) (\<lambda>dgs.
                 let fl5 = getline fl4
                 in ebind (read_vector env (snd fl5) (dipoleES d) (int A)) (\<lambda>des.
                    let fl6 = getline fl5
                    in ebind (read_vector env (snd fl6) (dipoleT d) (int A)) (\<lambda>dt.
                       Inr (getline fl6,
                            \<lparr>energiesGS = gs, energiesES = es, dipoleGS = dgs,
                             dipoleES = des, dipoleT = dt, com = c\<rparr>))))))))"

definition mscale :: "matrix \<Rightarrow> double \<Rightarrow> matrix" where
  "mscale M c = M\<lparr>elems := (\<lambda>i j. dmul (elems M i j) c)\<rparr>"

text \<open>
  The containers are created with \<open>nChromophores\<close> entries and set to zero, the file is
  read, and the positions and two of the dipoles are converted.
\<close>

definition read_data :: "mc_vqe \<Rightarrow> environment \<Rightarrow> ifstream \<Rightarrow> error + site_data" where
  "read_data self env file =
     ebind (mconst (nChromophores self) 3 (Num 0)) (\<lambda>Z.
       let v = replicate (nat (nChromophores self)) (Num 0);
           d0 = \<lparr>energiesGS = v, energiesES = v, dipoleGS = Z, dipoleES = Z,
                 dipoleT = Z, com = Z\<rparr>
       in ebind (efold (read_site env) [0..<nat (nChromophores self)] ((file, []), d0))
            (\<lambda>(fl, d).
               Inr (d\<lparr>com := mscale (com d) (ANGSTROM2BOHR env),
                      dipoleGS := mscale (dipoleGS d) (DEBYE2AU env),
                      dipoleES := mscale (dipoleES d) (DEBYE2AU env)\<rparr>)))"

subsection \<open>The Hamiltonian builder\<close>

definition vsub :: "vector \<Rightarrow> vector \<Rightarrow> vector" where
  "vsub u v = map (\<lambda>(x, y). dsub x y) (zip u v)"

text \<open>The lambda \<open>twoBodyH\<close>.\<close>

definition twoBodyH :: "vector \<Rightarrow> vector \<Rightarrow> vector \<Rightarrow> double" where
  "twoBodyH mu_A mu_B r_AB =
     (let d_AB = vnorm r_AB;
          n_AB = map (\<lambda>x. ddiv x d_AB) r_AB
      in ddiv (dsub (vdot mu_A mu_B) (dmul (dmul (Num 3) (vdot mu_A n_AB)) (vdot mu_B n_AB)))
           (dpow3 d_AB))"

text \<open>
  \<open>twoBodyH(M1.row(i), M2.row(j), com.row(a) - com.row(b))\<close>; taking a row out of
  range fails.
\<close>

definition twoBodyH_rows ::
  "matrix \<Rightarrow> matrix \<Rightarrow> int \<Rightarrow> matrix \<Rightarrow> int \<Rightarrow> int \<Rightarrow> int \<Rightarrow> error + double" where
  "twoBodyH_rows c M1 i M2 j a b =
     ebind (mrow M1 i) (\<lambda>mu_A.
     ebind (mrow M2 j) (\<lambda>mu_B.
     ebind (mrow c a) (\<lambda>ra.
     ebind (mrow c b) (\<lambda>rb.
       Inr (twoBodyH mu_A mu_B (vsub ra rb))))))"

text \<open>\<open>v(i) += x\<close> and \<open>M(i, j) += x\<close>\<close>

definition vadd_at :: "vector \<Rightarrow> int \<Rightarrow> double \<Rightarrow> error + vector" where
  "vadd_at v i x = ebind (vcoeff v i) (\<lambda>old. vset v i (dadd old x))"

definition madd_at :: "matrix \<Rightarrow> int \<Rightarrow> int \<Rightarrow> double \<Rightarrow> error + matrix" where
  "madd_at M i j x = ebind (mcoeff M i j) (\<lambda>old. mupdate M i j (dadd old x))"

definition half_sum :: "matrix \<Rightarrow> matrix \<Rightarrow> matrix" where
  "half_sum M N =
     \<lparr>rows = rows M, cols = cols M,
      elems = (\<lambda>i j. ddiv (dadd (elems M i j) (elems N i j)) (Num 2))\<rparr>"

definition half_difference :: "matrix \<Rightarrow> matrix \<Rightarrow> matrix" where
  "half_difference M N =
     \<lparr>rows = rows M, cols = cols M,
      elems = (\<lambda>i j. ddiv (dsub (elems M i j) (elems N i j)) (Num 2))\<rparr>"

text \<open>
  The accumulators of the loop that computes the Hamiltonian. The Pauli operator is kept
  as the list of the terms that were added to it.
\<close>

record aiem_state =
  E :: double
  X_A :: vector
  Z_A :: vector
  XX_AB :: matrix
  XZ_AB :: matrix
  ZX_AB :: matrix
  ZZ_AB :: matrix
  hamiltonian :: "pauli_term list"

text \<open>The body of the loop over the neighbours \<open>B\<close> of \<open>A\<close>.\<close>

definition aiem_pair :: "site_data \<Rightarrow> int \<Rightarrow> int \<Rightarrow> aiem_state \<Rightarrow> error + aiem_state" where
  "aiem_pair d A B st =
     (let dipoleSum = half_sum (dipoleGS d) (dipoleES d);
          dipoleDiff = half_difference (dipoleGS d) (dipoleES d)
      in
      ebind (twoBodyH_rows (com d) dipoleSum A dipoleSum B A B) (\<lambda>e.
      ebind (twoBodyH_rows (com d) (dipoleT d) A dipoleSum B A B) (\<lambda>x1.
      ebind (vadd_at (X_A st) A (dmul (Num (1/2)) x1)) (\<lambda>X1.
      ebind (twoBodyH_rows (com d) dipoleSum B (dipoleT d) A B A) (\<lambda>x2.
      ebind (vadd_at X1 A (dmul (Num (1/2)) x2)) (\<lambda>X2.
      ebind (twoBodyH_rows (com d) dipoleSum A dipoleDiff B A B) (\<lambda>z1.
      ebind (vadd_at (Z_A st) A (dmul (Num (1/2)) z1)) (\<lambda>Z1.
      ebind (twoBodyH_rows (com d) dipoleDiff B dipoleSum A B A) (\<lambda>z2.
      ebind (vadd_at Z1 A (dmul (Num (1/2)) z2)) (\<lambda>Z2.
      ebind (twoBodyH_rows (com d) (dipoleT d) A (dipoleT d) B A B) (\<lambda>xx.
      ebind (mupdate (XX_AB st) A B xx) (\<lambda>XX.
      ebind (twoBodyH_rows (com d) (dipoleT d) A dipoleDiff B A B) (\<lambda>xz.
      ebind (mupdate (XZ_AB st) A B xz) (\<lambda>XZ.
      ebind (twoBodyH_rows (com d) dipoleDiff A (dipoleT d) B A B) (\<lambda>zx.
      ebind (mupdate (ZX_AB st) A B zx) (\<lambda>ZX.
      ebind (twoBodyH_rows (com d) dipoleDiff A dipoleDiff B A B) (\<lambda>zz.
      ebind (mupdate (ZZ_AB st) A B zz) (\<lambda>ZZ.
        Inr \<lparr>E = dadd (E st) (dmul (Num (1/2)) e), X_A = X2, Z_A = Z2,
             XX_AB = XX, XZ_AB = XZ, ZX_AB = ZX, ZZ_AB = ZZ,
             hamiltonian = hamiltonian st @
               [([(A, ''X''), (B, ''X'')], xx), ([(A, ''X''), (B, ''Z'')], xz),
                ([(A, ''Z''), (B, ''X'')], zx), ([(A, ''Z''), (B, ''Z'')], zz)]\<rparr>))))))))))))))))))"

text \<open>The body of the loop over the sites \<open>A\<close>.\<close>

definition aiem_site :: "mc_vqe \<Rightarrow> site_data \<Rightarrow> nat \<Rightarrow> aiem_state \<Rightarrow> error + aiem_state" where
  "aiem_site self d A st =
     ebind (efold (aiem_pair d (int A)) (pairs self ! A) st) (\<lambda>st1.
     ebind (vcoeff (Z_A st1) (int A)) (\<lambda>z.
     ebind (vcoeff (X_A st1) (int A)) (\<lambda>x.
       Inr (st1\<lparr>hamiltonian := hamiltonian st1 @
                  [([(int A, ''Z'')], z), ([(int A, ''X'')], x)]\<rparr>))))"

text \<open>The Hamiltonian: the accumulators after the loop, with the constant term added.\<close>

definition aiem :: "mc_vqe \<Rightarrow> site_data \<Rightarrow> error + aiem_state" where
  "aiem self d =
     ebind (mconst (nChromophores self) (nChromophores self) (Num 0)) (\<lambda>Z.
       let st0 = \<lparr>E = Num 0,
                  X_A = replicate (nat (nChromophores self)) (Num 0),
                  Z_A = map (\<lambda>(g, e). ddiv (dsub g e) (Num 2))
                          (zip (energiesGS d) (energiesES d)),
                  XX_AB = Z, XZ_AB = Z, ZX_AB = Z, ZZ_AB = Z, hamiltonian = []\<rparr>
       in ebind (efold (aiem_site self d) [0..<nat (nChromophores self)] st0) (\<lambda>st.
            Inr (st\<lparr>hamiltonian := hamiltonian st @ [([], E st)]\<rparr>)))"

subsection \<open>The reference matrix\<close>

text \<open>The four loops that fill \<open>CISMatrix\<close>, each with its body.\<close>

definition cis_diagonal_pair :: "aiem_state \<Rightarrow> int \<Rightarrow> int \<Rightarrow> matrix \<Rightarrow> error + matrix" where
  "cis_diagonal_pair st A B M =
     ebind (mcoeff (ZZ_AB st) A B) (\<lambda>zz1.
     ebind (mcoeff (ZZ_AB st) B A) (\<lambda>zz2.
     ebind (mcoeff M (A + 1) (A + 1)) (\<lambda>old.
       mupdate M (A + 1) (A + 1) (dsub old (dadd zz1 zz2)))))"

definition cis_diagonal :: "mc_vqe \<Rightarrow> aiem_state \<Rightarrow> double \<Rightarrow> nat \<Rightarrow> matrix \<Rightarrow> error + matrix" where
  "cis_diagonal self st E_ref A M =
     ebind (vcoeff (Z_A st) (int A)) (\<lambda>z.
     ebind (mupdate M (int A + 1) (int A + 1) (dsub E_ref (dmul (Num 2) z))) (\<lambda>M1.
       efold (cis_diagonal_pair st (int A)) (pairs self ! A) M1))"

definition cis_reference_pair :: "aiem_state \<Rightarrow> int \<Rightarrow> int \<Rightarrow> matrix \<Rightarrow> error + matrix" where
  "cis_reference_pair st A B M =
     ebind (mcoeff (XZ_AB st) A B) (\<lambda>xz.
     ebind (mcoeff (ZX_AB st) B A) (\<lambda>zx.
       madd_at M (A + 1) 0 (dmul (Num (1/2)) (dadd xz zx))))"

definition cis_reference :: "mc_vqe \<Rightarrow> aiem_state \<Rightarrow> nat \<Rightarrow> matrix \<Rightarrow> error + matrix" where
  "cis_reference self st A M =
     ebind (vcoeff (X_A st) (int A)) (\<lambda>x.
     ebind (mupdate M (int A + 1) 0 x) (\<lambda>M1.
     ebind (efold (cis_reference_pair st (int A)) (pairs self ! A) M1) (\<lambda>M2.
     ebind (mcoeff M2 (int A + 1) 0) (\<lambda>v.
       mupdate M2 0 (int A + 1) v))))"

definition cis_singles_pair :: "aiem_state \<Rightarrow> int \<Rightarrow> int \<Rightarrow> matrix \<Rightarrow> error + matrix" where
  "cis_singles_pair st A B M =
     ebind (mcoeff (XX_AB st) A B) (\<lambda>xx. mupdate M (A + 1) (B + 1) xx)"

definition cis_singles :: "mc_vqe \<Rightarrow> aiem_state \<Rightarrow> nat \<Rightarrow> matrix \<Rightarrow> error + matrix" where
  "cis_singles self st A M = efold (cis_singles_pair st (int A)) (pairs self ! A) M"

definition cis_matrix :: "mc_vqe \<Rightarrow> aiem_state \<Rightarrow> error + matrix" where
  "cis_matrix self st =
     ebind (mconst (nStates self) (nStates self) (Num 0)) (\<lambda>M0.
       let E_ref = dadd (dadd (E st) (vsum (Z_A st))) (dmul (Num (1/2)) (msum (ZZ_AB st)))
       in ebind (mupdate M0 0 0 E_ref) (\<lambda>M1.
          ebind (efold (cis_diagonal self st E_ref) [0..<nat (nChromophores self)] M1) (\<lambda>M2.
          ebind (efold (cis_reference self st) [0..<nat (nChromophores self)] M2) (\<lambda>M3.
            efold (cis_singles self st) [0..<nat (nChromophores self)] M3))))"

text \<open>
  The Hamiltonian builder: from the data of the sites to the Hamiltonian and the
  reference matrix, as it is before it is diagonalized.
\<close>

definition hamiltonian_builder ::
  "mc_vqe \<Rightarrow> site_data \<Rightarrow> error + pauli_term list \<times> matrix" where
  "hamiltonian_builder self d =
     ebind (aiem self d) (\<lambda>st.
     ebind (cis_matrix self st) (\<lambda>M. Inr (hamiltonian st, M)))"

subsection \<open>\<open>MC_VQE::statePreparationAngles\<close>\<close>

text \<open>\<open>v.segment(start, n)\<close>: \<open>n\<close> coefficients from the index \<open>start\<close> on.\<close>

definition vsegment :: "vector \<Rightarrow> int \<Rightarrow> int \<Rightarrow> error + vector" where
  "vsegment v start n =
     (if 0 \<le> start \<and> 0 \<le> n \<and> start + n \<le> int (length v)
      then Inr (take (nat n) (drop (nat start) v))
      else Inl IndexOutOfRange)"

text \<open>The body of the loop over the angles of one state.\<close>

definition angle_body :: "mc_vqe \<Rightarrow> matrix \<Rightarrow> nat \<Rightarrow> nat \<Rightarrow> matrix \<Rightarrow> error + matrix" where
  "angle_body self CoefficientMatrix state angle gateAngles =
     ebind (mcol CoefficientMatrix (int state)) (\<lambda>column.
     ebind (vsegment column (int angle) (nChromophores self - int angle + 1)) (\<lambda>segment.
       let partialCoeffNorm = vnorm segment
       in ebind (mcoeff CoefficientMatrix (int angle) (int state)) (\<lambda>c.
            mupdate gateAngles (int angle) (int state) (dacos (ddiv c partialCoeffNorm)))))"

text \<open>
  The body of the loop over the states: the angles, and then the sign of the last one;
  \<open>Eigen::last\<close> is the index of the last row.
\<close>

definition state_angles :: "mc_vqe \<Rightarrow> matrix \<Rightarrow> nat \<Rightarrow> matrix \<Rightarrow> error + matrix" where
  "state_angles self CoefficientMatrix state gateAngles =
     ebind (efold (angle_body self CoefficientMatrix state)
              [0..<nat (nChromophores self)] gateAngles) (\<lambda>G.
     ebind (mcoeff CoefficientMatrix (int (rows CoefficientMatrix) - 1) (int state)) (\<lambda>l.
       if dless l (Num 0)
       then ebind (mcoeff G (nChromophores self - 1) (int state)) (\<lambda>g.
              mupdate G (nChromophores self - 1) (int state) (dmul g (Num (- 1))))
       else Inr G))"

definition statePreparationAngles :: "mc_vqe \<Rightarrow> matrix \<Rightarrow> error + matrix" where
  "statePreparationAngles self CoefficientMatrix =
     ebind (mconst (nChromophores self) (nStates self) (Num 0)) (\<lambda>gateAngles.
       efold (state_angles self CoefficientMatrix) [0..<nat (nStates self)] gateAngles)"

text \<open>
  The angle with the index \<open>k\<close> of the column \<open>s\<close> in the words of the specification: the
  arc cosine of the coefficient \<open>k\<close> divided by the Euclidean norm of the part of the
  column from \<open>k\<close> to its end; the last angle, with the index \<open>n - 1\<close> for \<open>n\<close> sites, is
  negated when the last coefficient of the column is negative.
\<close>

definition encoded_angle :: "int \<Rightarrow> matrix \<Rightarrow> nat \<Rightarrow> nat \<Rightarrow> double" where
  "encoded_angle n C k s =
     (let column = map (\<lambda>i. elems C i s) [0..<rows C];
          angle = dacos (ddiv (column ! k) (vnorm (drop k column)))
      in if int k = n - 1 \<and> dless (last column) (Num 0) then dneg angle else angle)"

text \<open>The same angle before its sign is set.\<close>

definition raw_angle :: "matrix \<Rightarrow> nat \<Rightarrow> nat \<Rightarrow> double" where
  "raw_angle C k s =
     dacos (ddiv (elems C k s) (vnorm (drop k (map (\<lambda>i. elems C i s) [0..<rows C]))))"

subsection \<open>\<open>MC_VQE::preProcessing\<close> and \<open>MC_VQE::initialize\<close>\<close>

definition preProcessing :: "mc_vqe \<Rightarrow> environment \<Rightarrow> error + mc_vqe" where
  "preProcessing self env =
     (let file = open_ifstream env (dataPath self)
      in if bad file then Inl CannotAccessDataFile
         else
           ebind (read_data self env file) (\<lambda>d.
           ebind (aiem self d) (\<lambda>st.
           ebind (cis_matrix self st) (\<lambda>CISMatrix.
             let eigenstates = eigenvectors env CISMatrix
             in ebind (statePreparationAngles self eigenstates) (\<lambda>angles.
                  Inr (self\<lparr>observable := hamiltonian st, CISEigenstates := eigenstates,
                            CISGateAngles := angles\<rparr>))))))"

text \<open>
  The options that \<open>initialize\<close> looks up. The accelerator and the optimizer are services,
  of which only the presence matters here; the gradient strategy is part of the services
  of the objective.
\<close>

record parameters =
  has_accelerator :: bool
  has_optimizer :: bool
  opt_nChromophores :: "int option"
  opt_data_path :: "string option"
  opt_cyclic :: "bool option"
  opt_log_level :: "int option"
  opt_tnqvm_log :: "bool option"
  opt_interference :: "bool option"
  opt_n_states :: "int option"

text \<open>\<open>initialize\<close> returns \<open>false\<close> when a required option is missing.\<close>

definition initialize :: "mc_vqe \<Rightarrow> parameters \<Rightarrow> environment \<Rightarrow> error + bool \<times> mc_vqe" where
  "initialize self ps env =
     (if \<not> has_accelerator ps then Inr (False, self)
      else if \<not> has_optimizer ps then Inr (False, self)
      else case opt_nChromophores ps of
        None \<Rightarrow> Inr (False, self)
      | Some n \<Rightarrow>
          (case opt_data_path ps of
             None \<Rightarrow> Inr (False, self)
           | Some path \<Rightarrow>
               let self1 = self
                     \<lparr>nChromophores := n, dataPath := path,
                      isCyclic := (case opt_cyclic ps of Some c \<Rightarrow> c | None \<Rightarrow> False),
                      logLevel := (case opt_log_level ps of Some l \<Rightarrow> l | None \<Rightarrow> logLevel self),
                      tnqvmLog := (case opt_tnqvm_log ps of Some t \<Rightarrow> t | None \<Rightarrow> tnqvmLog self),
                      doInterference :=
                        (case opt_interference ps of Some i \<Rightarrow> i | None \<Rightarrow> doInterference self),
                      nStates := n + 1\<rparr>
               in ebind (mconst n (n + 1) (Num 0)) (\<lambda>G.
                  ebind (preProcessing (self1\<lparr>CISGateAngles := G\<rparr>) env) (\<lambda>self2.
                    Inr (True, case opt_n_states ps of
                                 Some k \<Rightarrow> self2\<lparr>nStates := k\<rparr>
                               | None \<Rightarrow> self2)))))"

section \<open>The averaged-energy objective and the interference stage\<close>

text \<open>
  The external services. \<open>vqe_execute\<close> is the energy that the generic VQE routine
  returns for an observable, a circuit and a parameter vector on the accelerator;
  \<open>circuit_depth\<close> is \<open>CompositeInstruction::depth\<close>; \<open>accelerator_execute\<close> runs
  a list of circuits and gives one child buffer per circuit; \<open>eigenvalues\<close> is the
  self-adjoint eigenvalue solver. The gradient strategy is optional.
\<close>

record 'buf gradient_strategy =
  getGradientExecutions :: "composite \<Rightarrow> double list \<Rightarrow> composite list"
  compute :: "double list \<Rightarrow> 'buf list \<Rightarrow> double list"

record 'buf services =
  vqe_execute :: "pauli_term list \<Rightarrow> composite \<Rightarrow> double list \<Rightarrow> double"
  circuit_depth :: "composite \<Rightarrow> int"
  accelerator_execute :: "composite list \<Rightarrow> 'buf list"
  gradientStrategy :: "'buf gradient_strategy option"
  eigenvalues :: "matrix \<Rightarrow> vector"

text \<open>
  A run of \<open>optimizer->optimize(f)\<close>: the calls of the objective that the optimizer
  makes, each with its parameter vector \<open>x\<close> and the gradient vector \<open>dx\<close> it passes, and
  the pair it returns.
\<close>

record optimizer_run =
  calls :: "(double list \<times> double list) list"
  result :: "double \<times> double list"

text \<open>The variables of \<open>execute\<close> that the objective captures by reference.\<close>

record objective_state =
  oldAverageEnergy :: double
  entangledHamiltonian :: matrix
  diagonal :: vector
  depth :: "int option"
  nGates :: "int option"

definition vqeWrapper ::
  "'buf services \<Rightarrow> pauli_term list \<Rightarrow> composite \<Rightarrow> double list \<Rightarrow> double" where
  "vqeWrapper sv obs kern x = vqe_execute sv obs kern x"

text \<open>A state-preparation circuit with the entangler's variables and instructions added.\<close>

definition full_circuit :: "mc_vqe \<Rightarrow> composite \<Rightarrow> vector \<Rightarrow> error + composite" where
  "full_circuit self entangler angles =
     ebind (statePreparationCircuit self angles) (\<lambda>kern.
       Inr (fold addInstruction (instructions entangler)
              (addVariables (variables entangler) kern)))"

text \<open>
  \<open>averageGrad[i] += tmpGrad[i] / nStates\<close>; an index outside a \<open>std::vector\<close> is
  undefined behaviour, and the model stops there.
\<close>

definition grad_step :: "int \<Rightarrow> double list \<Rightarrow> nat \<Rightarrow> double list \<Rightarrow> error + double list" where
  "grad_step n tmpGrad i averageGrad =
     ebind (vcoeff tmpGrad (int i)) (\<lambda>t.
     ebind (vcoeff averageGrad (int i)) (\<lambda>a.
       vset averageGrad (int i) (dadd a (ddiv t (Num (of_int n))))))"

text \<open>
  The body of the loop over the states; the loop carries the running energy sum, the
  averaged gradient and the captured variables.
\<close>

definition state_body ::
  "mc_vqe \<Rightarrow> 'buf services \<Rightarrow> composite \<Rightarrow> double list \<Rightarrow> double list \<Rightarrow> nat \<Rightarrow>
   double \<times> double list \<times> objective_state \<Rightarrow>
   error + double \<times> double list \<times> objective_state" where
  "state_body self sv entangler x dx state = (\<lambda>(averageEnergy, averageGrad, os).
     ebind (mcol (CISGateAngles self) (int state)) (\<lambda>angles.
     ebind (full_circuit self entangler angles) (\<lambda>kern.
       let os1 = os\<lparr>depth := Some (circuit_depth sv kern),
                    nGates := Some (int (nInstructions kern))\<rparr>;
           energy = vqeWrapper sv (observable self) kern x
       in ebind (case gradientStrategy sv of
                   None \<Rightarrow> Inr averageGrad
                 | Some g \<Rightarrow>
                     let gradFsToExec = getGradientExecutions g kern x;
                         buffers = accelerator_execute sv gradFsToExec;
                         tmpGrad = compute g dx buffers
                     in efold (grad_step (nStates self) tmpGrad) [0..<length dx] averageGrad)
            (\<lambda>averageGrad'.
          ebind (vset (diagonal os1) (int state) energy) (\<lambda>d.
            Inr (dadd averageEnergy energy, averageGrad', os1\<lparr>diagonal := d\<rparr>))))))"

text \<open>\<open>entangledHamiltonian.diagonal() = diagonal\<close>\<close>

definition set_diagonal :: "matrix \<Rightarrow> vector \<Rightarrow> matrix" where
  "set_diagonal M d =
     M\<lparr>elems := (\<lambda>i j. if i = j \<and> i < length d then d ! i else elems M i j)\<rparr>"

text \<open>
  The objective \<open>f(x, dx)\<close>: it returns the average energy, leaves the gradient in
  \<open>dx\<close>, and updates the captured variables.
\<close>

definition objective ::
  "mc_vqe \<Rightarrow> 'buf services \<Rightarrow> composite \<Rightarrow> double list \<times> double list \<Rightarrow> objective_state \<Rightarrow>
   error + double \<times> double list \<times> objective_state" where
  "objective self sv entangler = (\<lambda>(x, dx) os.
     ebind (efold (state_body self sv entangler x dx) [0..<nat (nStates self)]
              (Num 0, replicate (length x) (Num 0), os))
       (\<lambda>(energySum, averageGrad, os1).
          let averageEnergy = ddiv energySum (Num (of_int (nStates self)));
              dx' = (if averageGrad \<noteq> [] then averageGrad else dx);
              os2 = (if dless averageEnergy (oldAverageEnergy os1)
                     then os1\<lparr>oldAverageEnergy := averageEnergy,
                              entangledHamiltonian :=
                                set_diagonal (entangledHamiltonian os1) (diagonal os1)\<rparr>
                     else os1)
          in Inr (averageEnergy, dx', os2)))"

text \<open>The optimizer's calls, one after the other, on the captured variables.\<close>

definition objective_calls ::
  "mc_vqe \<Rightarrow> 'buf services \<Rightarrow> composite \<Rightarrow> (double list \<times> double list) list \<Rightarrow>
   objective_state \<Rightarrow> error + objective_state" where
  "objective_calls self sv entangler cs os =
     efold (\<lambda>call os. ebind (objective self sv entangler call os)
                         (\<lambda>(averageEnergy, dx', os'). Inr os')) cs os"

text \<open>
  The captured variables as \<open>execute\<close> declares them. The vector \<open>diagonal\<close> is
  declared without a value; each call writes all of it before reading it.
\<close>

definition initial_state :: "mc_vqe \<Rightarrow> error + objective_state" where
  "initial_state self =
     ebind (mconst (nStates self) (nStates self) (Num 0)) (\<lambda>M.
       Inr \<lparr>oldAverageEnergy = Num 0, entangledHamiltonian = M,
            diagonal = replicate (nat (nStates self)) (Num 0),
            depth = None, nGates = None\<rparr>)"

text \<open>The angles \<open>(a + b) / sqrt 2\<close> and \<open>(a - b) / sqrt 2\<close> of the interference circuits.\<close>

definition plus_angles :: "vector \<Rightarrow> vector \<Rightarrow> vector" where
  "plus_angles a b = map (\<lambda>(p, q). ddiv (dadd p q) (dsqrt (Num 2))) (zip a b)"

definition minus_angles :: "vector \<Rightarrow> vector \<Rightarrow> vector" where
  "minus_angles a b = map (\<lambda>(p, q). ddiv (dsub p q) (dsqrt (Num 2))) (zip a b)"

text \<open>The body of the two loops of the interference stage, for the pair \<open>(stateA, stateB)\<close>.\<close>

definition interference_pair ::
  "mc_vqe \<Rightarrow> 'buf services \<Rightarrow> composite \<Rightarrow> double list \<Rightarrow> nat \<Rightarrow> nat \<Rightarrow> matrix \<Rightarrow>
   error + matrix" where
  "interference_pair self sv entangler optimizedEntangler stateA stateB M =
     ebind (mcol (CISGateAngles self) (int stateA)) (\<lambda>a.
     ebind (mcol (CISGateAngles self) (int stateB)) (\<lambda>b.
     ebind (full_circuit self entangler (plus_angles a b)) (\<lambda>plusInterferenceCircuit.
       let plusTerm =
             vqeWrapper sv (observable self) plusInterferenceCircuit optimizedEntangler
       in ebind (full_circuit self entangler (minus_angles a b)) (\<lambda>minusInterferenceCircuit.
            let minusTerm =
                  vqeWrapper sv (observable self) minusInterferenceCircuit optimizedEntangler
            in ebind (mupdate M (int stateA) (int stateB)
                        (ddiv (dsub plusTerm minusTerm) (dsqrt (Num 2)))) (\<lambda>M1.
               ebind (mcoeff M1 (int stateA) (int stateB)) (\<lambda>v.
                 mupdate M1 (int stateB) (int stateA) v))))))"

definition interference ::
  "mc_vqe \<Rightarrow> 'buf services \<Rightarrow> composite \<Rightarrow> double list \<Rightarrow> matrix \<Rightarrow> error + matrix" where
  "interference self sv entangler optimizedEntangler M =
     efold (\<lambda>stateA.
              efold (interference_pair self sv entangler optimizedEntangler stateA)
                [Suc stateA..<nat (nStates self)])
       [0..<nat (nStates self - 1)] M"

text \<open>What \<open>execute\<close> leaves: the extra information of the buffer, and the matrix.\<close>

record execute_result =
  opt_average_energy :: double
  info_circuit_depth :: "int option"
  info_n_gates :: "int option"
  opt_params :: "double list"
  opt_spectrum :: "vector option"
  final_hamiltonian :: matrix

definition execute :: "mc_vqe \<Rightarrow> 'buf services \<Rightarrow> optimizer_run \<Rightarrow> error + execute_result" where
  "execute self sv opt =
     ebind (initial_state self) (\<lambda>os0.
       let entangler = entanglerCircuit self
       in ebind (objective_calls self sv entangler (calls opt) os0) (\<lambda>os.
            let r = \<lparr>opt_average_energy = fst (result opt),
                     info_circuit_depth = depth os, info_n_gates = nGates os,
                     opt_params = snd (result opt), opt_spectrum = None,
                     final_hamiltonian = entangledHamiltonian os\<rparr>
            in if doInterference self
               then ebind (interference self sv entangler (snd (result opt))
                             (entangledHamiltonian os)) (\<lambda>M.
                      Inr (r\<lparr>opt_spectrum := Some (eigenvalues sv M),
                             final_hamiltonian := M\<rparr>))
               else Inr r))"

text \<open>
  What the rest of the object owes to \<open>initialize\<close>: at least one site, an angle matrix
  with one row per site and a column for each state that is computed.
\<close>

definition prepared :: "mc_vqe \<Rightarrow> bool" where
  "prepared self \<longleftrightarrow>
     1 \<le> nChromophores self \<and> int (rows (CISGateAngles self)) = nChromophores self \<and>
     nStates self \<le> int (cols (CISGateAngles self))"

text \<open>
  The interference term of the states \<open>a\<close> and \<open>b\<close> in the words of the specification,
  written out without the builders of the code. The angles are
  \<open>(angles_a + angles_b) / sqrt 2\<close> and \<open>(angles_a - angles_b) / sqrt 2\<close>. The state
  preparation for angles on \<open>n\<close> sites is the pump rotation on site 0, then for
  \<open>i = 1 .. n - 1\<close> the block of a rotation by minus half the angle \<open>i\<close>, the controlled
  gate from site \<open>i - 1\<close> to site \<open>i\<close> between two Hadamard gates, and a rotation by half
  the angle, then the wall of controlled gates from \<open>j\<close> to \<open>i\<close> for \<open>i\<close> from \<open>n - 2\<close>
  down to 0 and \<open>j\<close> from \<open>n - 1\<close> down to \<open>i + 1\<close>. The circuit is this sequence with
  the instructions of the entangler after it, and it has the variables of the entangler.
  The term is \<open>(plus - minus) / sqrt 2\<close> of the two expectation values.
\<close>

definition superposition_angles ::
  "(double \<Rightarrow> double \<Rightarrow> double) \<Rightarrow> matrix \<Rightarrow> nat \<Rightarrow> nat \<Rightarrow> vector" where
  "superposition_angles f A a b =
     map (\<lambda>k. ddiv (f (elems A k a) (elems A k b)) (dsqrt (Num 2))) [0..<rows A]"

definition state_preparation_instructions :: "nat \<Rightarrow> vector \<Rightarrow> instruction list" where
  "state_preparation_instructions n angles =
     Instruction ''Ry'' [0] [Value (angles ! 0)] #
     concat (map (\<lambda>i. [Instruction ''Ry'' [i] [Value (ddiv (dneg (angles ! i)) (Num 2))],
                       Instruction ''H'' [i] [],
                       Instruction ''CNOT'' [i - 1, i] [],
                       Instruction ''H'' [i] [],
                       Instruction ''Ry'' [i] [Value (ddiv (angles ! i) (Num 2))]]) [1..<n]) @
     concat (map (\<lambda>i. map (\<lambda>j. Instruction ''CNOT'' [j, i] []) (rev [Suc i..<n]))
               (rev [0..<n - 1]))"

definition superposition_circuit :: "nat \<Rightarrow> composite \<Rightarrow> vector \<Rightarrow> composite" where
  "superposition_circuit n entangler angles =
     \<lparr>cname = ''mcvqeCircuit'',
      instructions = state_preparation_instructions n angles @ instructions entangler,
      variables = variables entangler\<rparr>"

definition interference_term ::
  "mc_vqe \<Rightarrow> 'buf services \<Rightarrow> composite \<Rightarrow> double list \<Rightarrow> nat \<Rightarrow> nat \<Rightarrow> double" where
  "interference_term self sv entangler optimizedEntangler a b =
     (let plusCircuit =
            superposition_circuit (nat (nChromophores self)) entangler
              (superposition_angles dadd (CISGateAngles self) a b);
          minusCircuit =
            superposition_circuit (nat (nChromophores self)) entangler
              (superposition_angles dsub (CISGateAngles self) a b);
          plusTerm = vqe_execute sv (observable self) plusCircuit optimizedEntangler;
          minusTerm = vqe_execute sv (observable self) minusCircuit optimizedEntangler
      in ddiv (dsub plusTerm minusTerm) (dsqrt (Num 2)))"

text \<open>
  The data of \<open>n\<close> sites as the reading loop leaves them: \<open>n\<close> energies of each kind and
  \<open>n\<close> rows of three coordinates in each matrix.
\<close>

definition well_formed :: "nat \<Rightarrow> site_data \<Rightarrow> bool" where
  "well_formed n d \<longleftrightarrow>
     length (energiesGS d) = n \<and> length (energiesES d) = n \<and>
     rows (dipoleGS d) = n \<and> cols (dipoleGS d) = 3 \<and>
     rows (dipoleES d) = n \<and> cols (dipoleES d) = 3 \<and>
     rows (dipoleT d) = n \<and> cols (dipoleT d) = 3 \<and>
     rows (com d) = n \<and> cols (com d) = 3"

text \<open>The sizes of the accumulators of the Hamiltonian loop for \<open>n\<close> sites.\<close>

definition aiem_dims :: "nat \<Rightarrow> aiem_state \<Rightarrow> bool" where
  "aiem_dims n st \<longleftrightarrow>
     length (X_A st) = n \<and> length (Z_A st) = n \<and>
     rows (XX_AB st) = n \<and> cols (XX_AB st) = n \<and>
     rows (XZ_AB st) = n \<and> cols (XZ_AB st) = n \<and>
     rows (ZX_AB st) = n \<and> cols (ZX_AB st) = n \<and>
     rows (ZZ_AB st) = n \<and> cols (ZZ_AB st) = n"

text \<open>The sites \<open>A\<close> and \<open>B\<close> have the same position, with finite coordinates.\<close>

definition coincide :: "site_data \<Rightarrow> nat \<Rightarrow> nat \<Rightarrow> bool" where
  "coincide d A B \<longleftrightarrow>
     (\<forall>j < 3. \<exists>x. elems (com d) A j = Num x \<and> elems (com d) B j = Num x)"

text \<open>
  What the loops that fill the reference matrix keep: its size for \<open>n\<close> sites and its
  first entry.
\<close>

definition cis_inv :: "nat \<Rightarrow> double \<Rightarrow> matrix \<Rightarrow> bool" where
  "cis_inv n c M \<longleftrightarrow> rows M = n + 1 \<and> cols M = n + 1 \<and> elems M 0 0 = c"

section \<open>Example objects\<close>

text \<open>An object with \<open>n\<close> sites and the given topology, as it is before preprocessing.\<close>

definition example_object :: "int \<Rightarrow> bool \<Rightarrow> mc_vqe" where
  "example_object n c =
     \<lparr>nChromophores = n, nStates = n + 1, isCyclic = c, doInterference = True,
      tnqvmLog = False, logLevel = 0, dataPath = ''datafile.txt'',
      CISGateAngles = \<lparr>rows = 0, cols = 0, elems = (\<lambda>i j. Num 0)\<rparr>,
      CISEigenstates = \<lparr>rows = 0, cols = 0, elems = (\<lambda>i j. Num 0)\<rparr>,
      observable = []\<rparr>"

definition example_prepared :: mc_vqe where
  "example_prepared =
     (example_object 2 False)
       \<lparr>CISGateAngles := \<lparr>rows = 2, cols = 3, elems = (\<lambda>i j. Num 0)\<rparr>\<rparr>"

text \<open>Services without a gradient strategy whose backend returns the energy \<open>e\<close>.\<close>

definition example_services :: "double \<Rightarrow> unit services" where
  "example_services e =
     \<lparr>vqe_execute = (\<lambda>obs c x. e), circuit_depth = (\<lambda>c. int (nInstructions c)),
      accelerator_execute = (\<lambda>cs. []), gradientStrategy = None,
      eigenvalues = (\<lambda>M. [])\<rparr>"

definition zero_matrix :: "nat \<Rightarrow> matrix" where
  "zero_matrix n = \<lparr>rows = n, cols = n, elems = (\<lambda>i j. Num 0)\<rparr>"

text \<open>The captured variables as they are when the optimizer starts, for three states.\<close>

definition example_state :: objective_state where
  "example_state =
     \<lparr>oldAverageEnergy = Num 0, entangledHamiltonian = zero_matrix 3,
      diagonal = [Num 0, Num 0, Num 0], depth = None, nGates = None\<rparr>"

text \<open>
  Data for \<open>n\<close> sites on the x axis, one unit apart, and data for sites that are all at
  the origin. Energies and dipoles are the same at every site.
\<close>

definition example_data :: "nat \<Rightarrow> site_data" where
  "example_data n =
     \<lparr>energiesGS = replicate n (Num 0), energiesES = replicate n (Num 1),
      dipoleGS = \<lparr>rows = n, cols = 3, elems = (\<lambda>i j. Num 1)\<rparr>,
      dipoleES = \<lparr>rows = n, cols = 3, elems = (\<lambda>i j. Num 1)\<rparr>,
      dipoleT = \<lparr>rows = n, cols = 3, elems = (\<lambda>i j. Num 1)\<rparr>,
      com = \<lparr>rows = n, cols = 3, elems = (\<lambda>i j. if j = 0 then Num (real i) else Num 0)\<rparr>\<rparr>"

definition coincident_data :: "nat \<Rightarrow> site_data" where
  "coincident_data n =
     (example_data n)\<lparr>com := \<lparr>rows = n, cols = 3, elems = (\<lambda>i j. Num 0)\<rparr>\<rparr>"

text \<open>
  An environment in which no file can be opened, and a stand-in for \<open>std::stod\<close> that
  throws on the empty string, as \<open>std::stod\<close> does.
\<close>

definition example_environment :: environment where
  "example_environment =
     \<lparr>files = (\<lambda>path. None),
      stod = (\<lambda>s. if s = [] then None else Some (Num 0)),
      ANGSTROM2BOHR = Num 1, DEBYE2AU = Num 1, eigenvectors = (\<lambda>M. M)\<rparr>"

text \<open>The four required options, and nothing else.\<close>

definition example_parameters :: parameters where
  "example_parameters =
     \<lparr>has_accelerator = True, has_optimizer = True, opt_nChromophores = Some 2,
      opt_data_path = Some ''datafile.txt'', opt_cyclic = None, opt_log_level = None,
      opt_tnqvm_log = None, opt_interference = None, opt_n_states = None\<rparr>"

text \<open>The entries of a matrix, row by row, and the coefficients of a Hamiltonian.\<close>

definition entries :: "matrix \<Rightarrow> double list list" where
  "entries M = map (\<lambda>i. map (elems M i) [0..<cols M]) [0..<rows M]"

definition built_coefficients ::
  "error + pauli_term list \<times> matrix \<Rightarrow> error + double list \<times> double list list" where
  "built_coefficients r =
     (case r of Inl e \<Rightarrow> Inl e | Inr (h, M) \<Rightarrow> Inr (map snd h, entries M))"

text \<open>Two orthonormal columns, the second with a negative last coefficient.\<close>

definition example_eigenvectors :: matrix where
  "example_eigenvectors =
     \<lparr>rows = 2, cols = 2,
      elems = (\<lambda>i j. if i = j then (if i = 0 then Num 1 else Num (- 1)) else Num 0)\<rparr>"

text \<open>
  What the optimizer's calls leave: the vector \<open>diagonal\<close>, the best average, and the
  diagonal of the entangled Hamiltonian.
\<close>

definition recorded ::
  "error + objective_state \<Rightarrow> error + double list \<times> double \<times> double list" where
  "recorded r =
     (case r of
        Inl e \<Rightarrow> Inl e
      | Inr os \<Rightarrow>
          Inr (diagonal os, oldAverageEnergy os,
               map (\<lambda>i. elems (entangledHamiltonian os) i i)
                 [0..<rows (entangledHamiltonian os)]))"

text \<open>
  An object whose angle for the site \<open>i\<close> and the state \<open>j\<close> is \<open>i + j + 1\<close>, a matrix
  with 7 on the diagonal and 5 elsewhere, and services whose backend returns the angle of
  the first rotation of a circuit.
\<close>

definition example_angled :: mc_vqe where
  "example_angled =
     (example_object 2 False)
       \<lparr>CISGateAngles := \<lparr>rows = 2, cols = 3, elems = (\<lambda>i j. Num (real (i + j + 1)))\<rparr>\<rparr>"

definition example_matrix :: matrix where
  "example_matrix =
     \<lparr>rows = 3, cols = 3, elems = (\<lambda>i j. if i = j then Num 7 else Num 5)\<rparr>"

definition first_angle :: "composite \<Rightarrow> double" where
  "first_angle c =
     (case instructions c of
        Instruction gate qubits [Value v] # rest \<Rightarrow> v
      | _ \<Rightarrow> NaN)"

definition probing_services :: "unit services" where
  "probing_services =
     \<lparr>vqe_execute = (\<lambda>obs c x. first_angle c), circuit_depth = (\<lambda>c. int (nInstructions c)),
      accelerator_execute = (\<lambda>cs. []), gradientStrategy = None,
      eigenvalues = (\<lambda>M. [])\<rparr>"

section \<open>Basic facts\<close>

text \<open>On a ring of at least two sites every neighbour index is a site.\<close>

lemma pairs_cyclic_in_range:
  assumes "isCyclic self" and "2 \<le> nChromophores self"
    and "ps \<in> set (pairs self)" and "B \<in> set ps"
  shows "0 \<le> B \<and> B < nChromophores self"
  using assms by (auto simp: pairs_def pairs_of_def split: if_splits)

text \<open>The sixteen or twenty variable names of the entangler for four sites are distinct.\<close>

lemma entangler_variables_distinct:
  assumes "nChromophores self = 4"
  shows "distinct (variables (entanglerCircuit self))"
  using assms
  by (simp add: entanglerCircuit_def first_ry_def entanglerGate_def
      addVariable_def addInstruction_def createComposite_def NPARAMSENTANGLER_def
      paramLetter_def to_string_def upt_rec Let_def)

lemma ebind_simps [simp]: "ebind (Inl e) f = Inl e" "ebind (Inr v) f = f v"
  by (simp_all add: ebind_def)

lemma efold_append: "efold f (xs @ ys) s = ebind (efold f xs s) (efold f ys)"
  by (induction xs arbitrary: s) (auto simp: ebind_def split: sum.splits)

lemma efold_succeeds:
  assumes "\<And>x s. x \<in> set xs \<Longrightarrow> \<exists>s'. f x s = Inr s'"
  shows "\<exists>s'. efold f xs s = Inr s'"
  using assms
proof (induction xs arbitrary: s)
  case Nil
  then show ?case by simp
next
  case (Cons x xs)
  then obtain s1 where "f x s = Inr s1" by fastforce
  with Cons show ?case by simp
qed

lemma fy_gate_succeeds: "i < length angles \<Longrightarrow> \<exists>c'. fy_gate angles i c = Inr c'"
  by (simp add: fy_gate_def vcoeff_def Let_def)

lemma statePreparationCircuit_succeeds:
  assumes "1 \<le> nChromophores self" and "nat (nChromophores self) \<le> length angles"
  shows "\<exists>c. statePreparationCircuit self angles = Inr c"
proof -
  have "0 < length angles"
    using assms by linarith
  then have a0: "vcoeff angles 0 = Inr (angles ! 0)"
    by (simp add: vcoeff_def)
  define c0 where
    "c0 = addInstruction (Ry 0 (Value (angles ! 0))) (createComposite ''mcvqeCircuit'')"
  have "\<exists>c1. efold (fy_gate angles) [1..<nat (nChromophores self)] c0 = Inr c1"
    using assms by (intro efold_succeeds fy_gate_succeeds) auto
  then obtain c1 where "efold (fy_gate angles) [1..<nat (nChromophores self)] c0 = Inr c1"
    by blast
  then show ?thesis
    by (simp add: statePreparationCircuit_def a0 Let_def c0_def)
qed

lemma full_circuit_succeeds:
  assumes "1 \<le> nChromophores self" and "nat (nChromophores self) \<le> length angles"
  shows "\<exists>c. full_circuit self entangler angles = Inr c"
  using statePreparationCircuit_succeeds [OF assms] by (auto simp: full_circuit_def)

lemma mcol_prepared:
  assumes "prepared self" and "int s < nStates self"
  shows "mcol (CISGateAngles self) (int s) =
           Inr (map (\<lambda>i. elems (CISGateAngles self) i s) [0..<rows (CISGateAngles self)])"
  using assms by (simp add: prepared_def mcol_def)

lemma plus_angles_cols:
  "plus_angles (map (\<lambda>i. elems A i a) [0..<rows A]) (map (\<lambda>i. elems A i b) [0..<rows A]) =
     superposition_angles dadd A a b"
  by (simp add: plus_angles_def superposition_angles_def zip_map_map zip_same_conv_map)

lemma minus_angles_cols:
  "minus_angles (map (\<lambda>i. elems A i a) [0..<rows A]) (map (\<lambda>i. elems A i b) [0..<rows A]) =
     superposition_angles dsub A a b"
  by (simp add: minus_angles_def superposition_angles_def zip_map_map zip_same_conv_map)

lemma fold_addInstruction:
  "fold addInstruction is c = c\<lparr>instructions := instructions c @ is\<rparr>"
  by (induction "is" arbitrary: c) (simp_all add: addInstruction_def)

lemma fy_gates_closed:
  assumes "\<forall>i\<in>set is. i < length angles"
  shows "efold (fy_gate angles) is c =
     Inr (c\<lparr>instructions := instructions c @
        concat (map (\<lambda>i. [Instruction ''Ry'' [i] [Value (ddiv (dneg (angles ! i)) (Num 2))],
                       Instruction ''H'' [i] [],
                       Instruction ''CNOT'' [i - 1, i] [],
                       Instruction ''H'' [i] [],
                       Instruction ''Ry'' [i] [Value (ddiv (angles ! i) (Num 2))]]) is)\<rparr>)"
  using assms
  by (induction "is" arbitrary: c)
    (simp_all add: fy_gate_def vcoeff_def Let_def addInstruction_def Ry_def H_def CNOT_def)

lemma cnot_row_closed:
  "fold (\<lambda>j. addInstruction (CNOT j i)) js c =
     c\<lparr>instructions := instructions c @ map (\<lambda>j. Instruction ''CNOT'' [j, i] []) js\<rparr>"
  by (induction js arbitrary: c) (simp_all add: addInstruction_def CNOT_def)

lemma cnot_rows_closed:
  "fold (\<lambda>i. fold (\<lambda>j. addInstruction (CNOT j i)) (rev [Suc i..<n])) is c =
     c\<lparr>instructions := instructions c @
        concat (map (\<lambda>i. map (\<lambda>j. Instruction ''CNOT'' [j, i] []) (rev [Suc i..<n])) is)\<rparr>"
  by (induction "is" arbitrary: c) (simp_all add: cnot_row_closed)

lemma full_circuit_closed_form:
  assumes "1 \<le> nChromophores self" and "nat (nChromophores self) \<le> length angles"
  shows "full_circuit self entangler angles =
           Inr (superposition_circuit (nat (nChromophores self)) entangler angles)"
proof -
  have "0 < length angles"
    using assms by linarith
  then have a0: "vcoeff angles 0 = Inr (angles ! 0)"
    by (simp add: vcoeff_def)
  have rng: "\<forall>i\<in>set [Suc 0..<nat (nChromophores self)]. i < length angles"
    using assms(2) by auto
  show ?thesis
    by (simp add: full_circuit_def statePreparationCircuit_def a0 Let_def
        fy_gates_closed [OF rng] cnot_wall_def cnot_rows_closed fold_addInstruction
        addVariables_def addInstruction_def createComposite_def Ry_def
        superposition_circuit_def state_preparation_instructions_def)
qed

lemma full_circuit_superposition:
  assumes "prepared self"
  shows "full_circuit self entangler (superposition_angles f (CISGateAngles self) a b) =
           Inr (superposition_circuit (nat (nChromophores self)) entangler
                  (superposition_angles f (CISGateAngles self) a b))"
  using assms
  by (intro full_circuit_closed_form) (auto simp: prepared_def superposition_angles_def)

lemma interference_pair_effect:
  assumes "prepared self" and "int a < nStates self" and "int b < nStates self"
    and "rows M = nat (nStates self)" and "cols M = nat (nStates self)"
  shows "interference_pair self sv entangler x a b M =
           Inr (M\<lparr>elems := (\<lambda>i j. if (i = a \<and> j = b) \<or> (i = b \<and> j = a)
                                 then interference_term self sv entangler x a b
                                 else elems M i j)\<rparr>)"
proof -
  define v where "v = interference_term self sv entangler x a b"
  have ab: "a < rows M" "b < rows M" "a < cols M" "b < cols M"
    using assms(2-5) by linarith+
  have step: "interference_pair self sv entangler x a b M =
      Inr (M\<lparr>elems := (elems M)(a := (elems M a)(b := v))\<rparr>
            \<lparr>elems := (elems (M\<lparr>elems := (elems M)(a := (elems M a)(b := v))\<rparr>))
               (b := (elems (M\<lparr>elems := (elems M)(a := (elems M a)(b := v))\<rparr>) b)(a := v))\<rparr>)"
    using ab
    by (simp add: interference_pair_def mcol_prepared [OF assms(1)] assms(2,3)
        plus_angles_cols minus_angles_cols full_circuit_superposition [OF assms(1)]
        Let_def mupdate_def mcoeff_def in_range_def vqeWrapper_def v_def
        interference_term_def)
  show ?thesis
    unfolding step v_def by (auto simp: fun_eq_iff)
qed

lemma interference_inner:
  assumes "prepared self" and "int a < nStates self"
    and "\<forall>b\<in>set bs. int b < nStates self"
    and "rows M = nat (nStates self)" and "cols M = nat (nStates self)"
  shows "\<exists>M'. efold (interference_pair self sv entangler x a) bs M = Inr M' \<and>
           rows M' = rows M \<and> cols M' = cols M \<and>
           (\<forall>i j. elems M' i j =
              (if i = a \<and> j \<in> set bs then interference_term self sv entangler x a j
               else if j = a \<and> i \<in> set bs then interference_term self sv entangler x a i
               else elems M i j))"
  using assms(3-5)
proof (induction bs arbitrary: M)
  case Nil
  then show ?case by simp
next
  case (Cons b bs)
  define M1 where "M1 = M\<lparr>elems := (\<lambda>i j. if (i = a \<and> j = b) \<or> (i = b \<and> j = a)
                                 then interference_term self sv entangler x a b
                                 else elems M i j)\<rparr>"
  have b: "int b < nStates self"
    using Cons.prems(1) by simp
  have step: "interference_pair self sv entangler x a b M = Inr M1"
    unfolding M1_def
    by (rule interference_pair_effect [OF assms(1,2) b Cons.prems(2,3)])
  have dims: "rows M1 = nat (nStates self)" "cols M1 = nat (nStates self)"
    using Cons.prems(2,3) by (simp_all add: M1_def)
  have "\<forall>b\<in>set bs. int b < nStates self"
    using Cons.prems(1) by simp
  from Cons.IH [OF this dims] obtain M' where
    M': "efold (interference_pair self sv entangler x a) bs M1 = Inr M'"
      "rows M' = rows M1" "cols M' = cols M1"
      "\<forall>i j. elems M' i j =
              (if i = a \<and> j \<in> set bs then interference_term self sv entangler x a j
               else if j = a \<and> i \<in> set bs then interference_term self sv entangler x a i
               else elems M1 i j)"
    by blast
  have "efold (interference_pair self sv entangler x a) (b # bs) M = Inr M'"
    by (simp add: step M'(1))
  moreover have "rows M' = rows M" "cols M' = cols M"
    using M'(2,3) by (simp_all add: M1_def)
  moreover have "elems M' i j =
              (if i = a \<and> j \<in> set (b # bs) then interference_term self sv entangler x a j
               else if j = a \<and> i \<in> set (b # bs) then interference_term self sv entangler x a i
               else elems M i j)" for i j
    using M'(4) by (auto simp: M1_def)
  ultimately show ?case by blast
qed

lemma interference_outer:
  assumes "prepared self"
    and "\<forall>a\<in>set as. int a < nStates self"
    and "rows M = nat (nStates self)" and "cols M = nat (nStates self)"
  shows "\<exists>M'. efold (\<lambda>a. efold (interference_pair self sv entangler x a)
                               [Suc a..<nat (nStates self)]) as M = Inr M' \<and>
           rows M' = rows M \<and> cols M' = cols M \<and>
           (\<forall>i j. elems M' i j =
              (if i < j \<and> i \<in> set as \<and> int j < nStates self
               then interference_term self sv entangler x i j
               else if j < i \<and> j \<in> set as \<and> int i < nStates self
               then interference_term self sv entangler x j i
               else elems M i j))"
  using assms(2-4)
proof (induction as arbitrary: M)
  case Nil
  then show ?case by simp
next
  case (Cons a as)
  have a: "int a < nStates self"
    using Cons.prems(1) by simp
  have bs: "\<forall>b\<in>set [Suc a..<nat (nStates self)]. int b < nStates self"
    by auto
  from interference_inner [OF assms(1) a bs Cons.prems(2,3)] obtain M1 where
    M1: "efold (interference_pair self sv entangler x a) [Suc a..<nat (nStates self)] M = Inr M1"
      "rows M1 = rows M" "cols M1 = cols M"
      "\<forall>i j. elems M1 i j =
              (if i = a \<and> j \<in> set [Suc a..<nat (nStates self)]
               then interference_term self sv entangler x a j
               else if j = a \<and> i \<in> set [Suc a..<nat (nStates self)]
               then interference_term self sv entangler x a i
               else elems M i j)"
    by blast
  have dims: "rows M1 = nat (nStates self)" "cols M1 = nat (nStates self)"
    using M1(2,3) Cons.prems(2,3) by simp_all
  have "\<forall>a\<in>set as. int a < nStates self"
    using Cons.prems(1) by simp
  from Cons.IH [OF this dims] obtain M' where
    M': "efold (\<lambda>a. efold (interference_pair self sv entangler x a)
                               [Suc a..<nat (nStates self)]) as M1 = Inr M'"
      "rows M' = rows M1" "cols M' = cols M1"
      "\<forall>i j. elems M' i j =
              (if i < j \<and> i \<in> set as \<and> int j < nStates self
               then interference_term self sv entangler x i j
               else if j < i \<and> j \<in> set as \<and> int i < nStates self
               then interference_term self sv entangler x j i
               else elems M1 i j)"
    by blast
  have "efold (\<lambda>a. efold (interference_pair self sv entangler x a)
                               [Suc a..<nat (nStates self)]) (a # as) M = Inr M'"
    by (simp add: M1(1) M'(1))
  moreover have "rows M' = rows M" "cols M' = cols M"
    using M'(2,3) M1(2,3) by simp_all
  moreover have "elems M' i j =
              (if i < j \<and> i \<in> set (a # as) \<and> int j < nStates self
               then interference_term self sv entangler x i j
               else if j < i \<and> j \<in> set (a # as) \<and> int i < nStates self
               then interference_term self sv entangler x j i
               else elems M i j)" for i j
    using M'(4) M1(4) by (auto simp: less_Suc_eq_le Suc_le_eq)
  ultimately show ?case by blast
qed

lemma state_body_no_gradient:
  assumes "prepared self" and "gradientStrategy sv = None" and "int s < nStates self"
    and "length (diagonal os) = nat (nStates self)"
  shows "\<exists>e' os'. state_body self sv entangler x dx s (e, g, os) = Inr (e', g, os') \<and>
           length (diagonal os') = nat (nStates self)"
proof -
  let ?angles = "map (\<lambda>i. elems (CISGateAngles self) i s) [0..<rows (CISGateAngles self)]"
  have "\<exists>c. full_circuit self entangler ?angles = Inr c"
    using assms(1) by (intro full_circuit_succeeds) (auto simp: prepared_def)
  then obtain c where c: "full_circuit self entangler ?angles = Inr c"
    by blast
  have "s < length (diagonal os)"
    using assms(3,4) by linarith
  then show ?thesis
    by (simp add: state_body_def mcol_prepared [OF assms(1,3)] c assms(2,4) Let_def vset_def)
qed

lemma state_loop_no_gradient:
  assumes "prepared self" and "gradientStrategy sv = None"
    and "\<forall>s\<in>set ss. int s < nStates self"
    and "length (diagonal os) = nat (nStates self)"
  shows "\<exists>e' os'. efold (state_body self sv entangler x dx) ss (e, g, os) = Inr (e', g, os') \<and>
           length (diagonal os') = nat (nStates self)"
  using assms(3,4)
proof (induction ss arbitrary: e os)
  case Nil
  then show ?case by simp
next
  case (Cons s ss)
  have "int s < nStates self"
    using Cons.prems(1) by simp
  from state_body_no_gradient [OF assms(1,2) this Cons.prems(2)]
  obtain e1 os1 where
    s1: "state_body self sv entangler x dx s (e, g, os) = Inr (e1, g, os1)"
      "length (diagonal os1) = nat (nStates self)"
    by blast
  have "\<forall>s\<in>set ss. int s < nStates self"
    using Cons.prems(1) by simp
  from Cons.IH [OF this s1(2)] s1(1) show ?case
    by simp
qed

lemma dadd_NaN [simp]: "dadd a NaN = NaN"
  by (cases a) simp_all

lemma dmul_NaN [simp]: "dmul a NaN = NaN"
  by (cases a) simp_all

lemma ddiv_NaN [simp]: "ddiv a NaN = NaN"
  by (cases a) simp_all

lemma dsub_NaN [simp]: "dsub a NaN = NaN" "dsub NaN b = NaN"
  by (simp_all add: dsub_def)

lemma dsub_Num [simp]: "dsub (Num x) (Num y) = Num (x - y)"
  by (simp add: dsub_def)

lemma twoBodyH_zero_distance [simp]:
  "twoBodyH [a1, a2, a3] [b1, b2, b3] [Num 0, Num 0, Num 0] = NaN"
  by (simp add: twoBodyH_def vnorm_def vsum_def vdot_def Let_def)

text \<open>On a linear chain the first neighbour of site 0 is \<open>-1\<close>, and taking its row fails.\<close>

lemma hamiltonian_builder_linear_fails:
  assumes "\<not> isCyclic self" and "1 \<le> nChromophores self"
  shows "hamiltonian_builder self d = Inl IndexOutOfRange"
proof -
  have "pairs self ! 0 = pairs_of self 0"
    using assms by (simp add: pairs_def upt_rec)
  then have "\<exists>B. pairs self ! 0 = [- 1, B]"
    using assms by (simp add: pairs_of_def)
  then obtain B where p: "pairs self ! 0 = [- 1, B]"
    by blast
  have "aiem_pair d 0 (- 1) st = Inl IndexOutOfRange" for st
    by (simp add: aiem_pair_def twoBodyH_rows_def mrow_def Let_def ebind_def)
  then have "aiem_site self d 0 st = Inl IndexOutOfRange" for st
    by (simp add: aiem_site_def p)
  moreover have "[0..<nat (nChromophores self)] = 0 # [1..<nat (nChromophores self)]"
    using assms by (simp add: upt_rec)
  ultimately show ?thesis using assms
    by (simp add: hamiltonian_builder_def aiem_def mconst_def Let_def)
qed

lemma dmul_minus_one: "dmul g (Num (- 1)) = dneg g"
  by (cases g) simp_all

lemma angle_body_effect:
  assumes "rows C = nat (nChromophores self) + 1" and "s < cols C"
    and "int k < nChromophores self"
    and "rows G = nat (nChromophores self)" and "s < cols G"
  shows "angle_body self C s k G =
           Inr (G\<lparr>elems := (elems G)(k := (elems G k)(s := raw_angle C k s))\<rparr>)"
proof -
  let ?column = "map (\<lambda>i. elems C i s) [0..<rows C]"
  have col: "mcol C (int s) = Inr ?column"
    using assms(2) by (simp add: mcol_def)
  have len: "length ?column = nat (nChromophores self) + 1"
    using assms(1) by simp
  have "nat (nChromophores self - int k + 1) = length (drop k ?column)"
    using assms(1,3) by simp
  then have "take (nat (nChromophores self - int k + 1)) (drop k ?column) = drop k ?column"
    by (metis take_all order_refl)
  moreover have "int k + (nChromophores self - int k + 1) \<le> int (length ?column)"
    using assms(1,3) by simp
  ultimately have seg:
    "vsegment ?column (int k) (nChromophores self - int k + 1) = Inr (drop k ?column)"
    using assms(3) by (simp add: vsegment_def)
  have c: "mcoeff C (int k) (int s) = Inr (elems C k s)"
    using assms(1,2,3) by (simp add: mcoeff_def in_range_def)
  have "in_range G (int k) (int s)"
    using assms(3,4,5) by (simp add: in_range_def)
  then show ?thesis
    unfolding angle_body_def col
    by (simp add: seg c Let_def mupdate_def raw_angle_def del: drop_map)
qed

lemma angle_loop_effect:
  assumes "rows C = nat (nChromophores self) + 1" and "s < cols C"
    and "\<forall>k\<in>set ks. int k < nChromophores self"
    and "rows G = nat (nChromophores self)" and "s < cols G"
  shows "\<exists>G'. efold (angle_body self C s) ks G = Inr G' \<and>
           rows G' = rows G \<and> cols G' = cols G \<and>
           (\<forall>i j. elems G' i j =
              (if j = s \<and> i \<in> set ks then raw_angle C i s else elems G i j))"
  using assms(3-5)
proof (induction ks arbitrary: G)
  case Nil
  then show ?case by simp
next
  case (Cons k ks)
  define G1 where "G1 = G\<lparr>elems := (elems G)(k := (elems G k)(s := raw_angle C k s))\<rparr>"
  have k: "int k < nChromophores self"
    using Cons.prems(1) by simp
  have step: "angle_body self C s k G = Inr G1"
    unfolding G1_def by (rule angle_body_effect [OF assms(1,2) k Cons.prems(2,3)])
  have dims: "rows G1 = nat (nChromophores self)" "s < cols G1"
    using Cons.prems(2,3) by (simp_all add: G1_def)
  have "\<forall>k\<in>set ks. int k < nChromophores self"
    using Cons.prems(1) by simp
  from Cons.IH [OF this dims] obtain G' where
    G': "efold (angle_body self C s) ks G1 = Inr G'" "rows G' = rows G1" "cols G' = cols G1"
      "\<forall>i j. elems G' i j = (if j = s \<and> i \<in> set ks then raw_angle C i s else elems G1 i j)"
    by blast
  have "efold (angle_body self C s) (k # ks) G = Inr G'"
    by (simp add: step G'(1))
  moreover have "rows G' = rows G" "cols G' = cols G"
    using G'(2,3) by (simp_all add: G1_def)
  moreover have "elems G' i j =
      (if j = s \<and> i \<in> set (k # ks) then raw_angle C i s else elems G i j)" for i j
    using G'(4) by (auto simp: G1_def)
  ultimately show ?case by blast
qed

lemma encoded_angle_raw:
  assumes "rows C = nat n + 1" and "int k < n"
  shows "encoded_angle n C k s =
           (if int k = n - 1 \<and> dless (elems C (nat n) s) (Num 0)
            then dneg (raw_angle C k s) else raw_angle C k s)"
proof -
  let ?column = "map (\<lambda>i. elems C i s) [0..<rows C]"
  have "?column \<noteq> []"
    using assms(1) by simp
  then have "last ?column = ?column ! (length ?column - 1)"
    by (rule last_conv_nth)
  then have l: "last ?column = elems C (nat n) s"
    using assms(1) by simp
  have "k < rows C"
    using assms by linarith
  then have "?column ! k = elems C k s"
    by simp
  then show ?thesis
    unfolding encoded_angle_def Let_def l raw_angle_def by simp
qed

lemma state_angles_effect:
  assumes "1 \<le> nChromophores self" and "rows C = nat (nChromophores self) + 1"
    and "s < cols C" and "rows G = nat (nChromophores self)" and "s < cols G"
  shows "\<exists>G'. state_angles self C s G = Inr G' \<and> rows G' = rows G \<and> cols G' = cols G \<and>
           (\<forall>i j. elems G' i j =
              (if j = s \<and> int i < nChromophores self
               then encoded_angle (nChromophores self) C i s else elems G i j))"
proof -
  have ks: "\<forall>k\<in>set [0..<nat (nChromophores self)]. int k < nChromophores self"
    by auto
  from angle_loop_effect [OF assms(2,3) ks assms(4,5)] obtain G1 where
    G1: "efold (angle_body self C s) [0..<nat (nChromophores self)] G = Inr G1"
      "rows G1 = rows G" "cols G1 = cols G"
      "\<forall>i j. elems G1 i j =
         (if j = s \<and> i \<in> set [0..<nat (nChromophores self)] then raw_angle C i s
          else elems G i j)"
    by blast
  have l: "mcoeff C (int (rows C) - 1) (int s) = Inr (elems C (nat (nChromophores self)) s)"
    using assms(1,2,3) by (simp add: mcoeff_def in_range_def)
  have r: "in_range G1 (nChromophores self - 1) (int s)"
    using assms(1,4,5) G1(2,3) by (simp add: in_range_def)
  have enc: "encoded_angle (nChromophores self) C i s =
           (if int i = nChromophores self - 1 \<and> dless (elems C (nat (nChromophores self)) s) (Num 0)
            then dneg (raw_angle C i s) else raw_angle C i s)" if "int i < nChromophores self" for i
    by (rule encoded_angle_raw [OF assms(2) that])
  show ?thesis
  proof (cases "dless (elems C (nat (nChromophores self)) s) (Num 0)")
    case False
    then have "state_angles self C s G = Inr G1"
      by (simp add: state_angles_def G1(1) l)
    moreover have "elems G1 i j =
              (if j = s \<and> int i < nChromophores self
               then encoded_angle (nChromophores self) C i s else elems G i j)" for i j
      using G1(4) False enc [of i] by auto
    ultimately show ?thesis using G1(2,3) by blast
  next
    case True
    define m where "m = nat (nChromophores self - 1)"
    define G2 where "G2 = G1\<lparr>elems := (elems G1)(m := (elems G1 m)(s := dneg (elems G1 m s)))\<rparr>"
    have g: "mcoeff G1 (nChromophores self - 1) (int s) = Inr (elems G1 m s)"
      using r by (simp add: mcoeff_def m_def)
    have u: "mupdate G1 (nChromophores self - 1) (int s) v =
               Inr (G1\<lparr>elems := (elems G1)(m := (elems G1 m)(s := v))\<rparr>)" for v
      using r by (simp add: mupdate_def m_def)
    have "state_angles self C s G = Inr G2"
      using True by (simp add: state_angles_def G1(1) l g u G2_def dmul_minus_one)
    moreover have "rows G2 = rows G" "cols G2 = cols G"
      using G1(2,3) by (simp_all add: G2_def)
    moreover have "elems G2 i j =
              (if j = s \<and> int i < nChromophores self
               then encoded_angle (nChromophores self) C i s else elems G i j)" for i j
    proof (cases "j = s \<and> int i < nChromophores self")
      case False
      then show ?thesis using G1(4) assms(1) by (auto simp: G2_def m_def)
    next
      case ij: True
      then have e: "encoded_angle (nChromophores self) C i s =
           (if int i = nChromophores self - 1 then dneg (raw_angle C i s) else raw_angle C i s)"
        using enc [of i] True by simp
      have g: "elems G1 i s = raw_angle C i s"
        using G1(4) ij by auto
      have "i = m \<longleftrightarrow> int i = nChromophores self - 1"
        using assms(1) by (auto simp: m_def)
      then show ?thesis
        using ij e g by (auto simp: G2_def)
    qed
    ultimately show ?thesis by blast
  qed
qed

lemma states_loop_effect:
  assumes "1 \<le> nChromophores self" and "rows C = nat (nChromophores self) + 1"
    and "\<forall>s\<in>set ss. s < cols C \<and> s < cols G" and "rows G = nat (nChromophores self)"
  shows "\<exists>G'. efold (state_angles self C) ss G = Inr G' \<and> rows G' = rows G \<and> cols G' = cols G \<and>
           (\<forall>i j. elems G' i j =
              (if j \<in> set ss \<and> int i < nChromophores self
               then encoded_angle (nChromophores self) C i j else elems G i j))"
  using assms(3,4)
proof (induction ss arbitrary: G)
  case Nil
  then show ?case by simp
next
  case (Cons s ss)
  have s: "s < cols C" "s < cols G"
    using Cons.prems(1) by simp_all
  from state_angles_effect [OF assms(1,2) s(1) Cons.prems(2) s(2)] obtain G1 where
    G1: "state_angles self C s G = Inr G1" "rows G1 = rows G" "cols G1 = cols G"
      "\<forall>i j. elems G1 i j =
              (if j = s \<and> int i < nChromophores self
               then encoded_angle (nChromophores self) C i s else elems G i j)"
    by blast
  have "\<forall>s\<in>set ss. s < cols C \<and> s < cols G1" "rows G1 = nat (nChromophores self)"
    using Cons.prems G1(2,3) by simp_all
  from Cons.IH [OF this] obtain G' where
    G': "efold (state_angles self C) ss G1 = Inr G'" "rows G' = rows G1" "cols G' = cols G1"
      "\<forall>i j. elems G' i j =
              (if j \<in> set ss \<and> int i < nChromophores self
               then encoded_angle (nChromophores self) C i j else elems G1 i j)"
    by blast
  have "efold (state_angles self C) (s # ss) G = Inr G'"
    by (simp add: G1(1) G'(1))
  moreover have "rows G' = rows G" "cols G' = cols G"
    using G'(2,3) G1(2,3) by simp_all
  moreover have "elems G' i j =
              (if j \<in> set (s # ss) \<and> int i < nChromophores self
               then encoded_angle (nChromophores self) C i j else elems G i j)" for i j
    using G'(4) G1(4) by auto
  ultimately show ?case by blast
qed

lemma efold_invariant:
  assumes "I s" and "\<And>x s. x \<in> set xs \<Longrightarrow> I s \<Longrightarrow> \<exists>s'. f x s = Inr s' \<and> I s'"
  shows "\<exists>s'. efold f xs s = Inr s' \<and> I s'"
  using assms
proof (induction xs arbitrary: s)
  case Nil
  then show ?case by simp
next
  case (Cons x xs)
  then obtain s1 where s1: "f x s = Inr s1" "I s1"
    by (meson list.set_intros(1))
  have "\<exists>s'. efold f xs s1 = Inr s' \<and> I s'"
    using Cons.IH [OF s1(2)] Cons.prems(2) by simp
  then show ?case by (simp add: s1(1))
qed

lemma efold_establish:
  assumes "I s"
    and "\<And>x s. x \<in> set xs \<Longrightarrow> I s \<Longrightarrow>
           \<exists>s'. f x s = Inr s' \<and> I s' \<and> (P s \<or> C x \<longrightarrow> P s')"
  shows "\<exists>s'. efold f xs s = Inr s' \<and> I s' \<and> (P s \<or> (\<exists>x\<in>set xs. C x) \<longrightarrow> P s')"
  using assms
proof (induction xs arbitrary: s)
  case Nil
  then show ?case by simp
next
  case (Cons x xs)
  then obtain s1 where s1: "f x s = Inr s1" "I s1" "P s \<or> C x \<longrightarrow> P s1"
    by (meson list.set_intros(1))
  have "\<exists>s'. efold f xs s1 = Inr s' \<and> I s' \<and> (P s1 \<or> (\<exists>x\<in>set xs. C x) \<longrightarrow> P s')"
    using Cons.IH [OF s1(2)] Cons.prems(2) by simp
  then show ?case using s1(3) by (auto simp add: s1(1))
qed

lemma row3: "cols M = 3 \<Longrightarrow> map (elems M i) [0..<cols M] = [elems M i 0, elems M i 1, elems M i 2]"
  by (simp add: upt_rec eval_nat_numeral)

lemma twoBodyH_rows_ok:
  assumes "0 \<le> i" "i < int (rows M1)" "0 \<le> j" "j < int (rows M2)"
    and "0 \<le> a" "a < int (rows c)" "0 \<le> b" "b < int (rows c)"
  shows "twoBodyH_rows c M1 i M2 j a b =
           Inr (twoBodyH (map (elems M1 (nat i)) [0..<cols M1]) (map (elems M2 (nat j)) [0..<cols M2])
                  (vsub (map (elems c (nat a)) [0..<cols c]) (map (elems c (nat b)) [0..<cols c])))"
  using assms by (simp add: twoBodyH_rows_def mrow_def)

lemma twoBodyH_rows_coincide:
  assumes "0 \<le> i" "i < int (rows M1)" "0 \<le> j" "j < int (rows M2)"
    and "0 \<le> a" "a < int (rows c)" "0 \<le> b" "b < int (rows c)"
    and "cols M1 = 3" "cols M2 = 3" "cols c = 3"
    and "\<forall>k < 3. \<exists>x. elems c (nat a) k = Num x \<and> elems c (nat b) k = Num x"
  shows "twoBodyH_rows c M1 i M2 j a b = Inr NaN"
proof -
  have "\<exists>x. elems c (nat a) 0 = Num x \<and> elems c (nat b) 0 = Num x"
    "\<exists>x. elems c (nat a) 1 = Num x \<and> elems c (nat b) 1 = Num x"
    "\<exists>x. elems c (nat a) 2 = Num x \<and> elems c (nat b) 2 = Num x"
    using assms(12) by simp_all
  then have "vsub (map (elems c (nat a)) [0..<cols c]) (map (elems c (nat b)) [0..<cols c]) =
      [Num 0, Num 0, Num 0]"
    by (auto simp: row3 [OF assms(11)] vsub_def)
  then show ?thesis
    unfolding twoBodyH_rows_ok [OF assms(1-8)]
    by (simp add: row3 [OF assms(9)] row3 [OF assms(10)])
qed

lemma vadd_at_ok:
  assumes "0 \<le> i" "i < int (length v)"
  shows "vadd_at v i x = Inr (v[nat i := dadd (v ! nat i) x])"
  using assms by (simp add: vadd_at_def vcoeff_def vset_def)

lemma mupdate_ok:
  assumes "0 \<le> i" "i < int (rows M)" "0 \<le> j" "j < int (cols M)"
  shows "mupdate M i j x = Inr (M\<lparr>elems := (elems M)(nat i := (elems M (nat i))(nat j := x))\<rparr>)"
  using assms by (simp add: mupdate_def in_range_def)

lemma mcoeff_ok:
  assumes "0 \<le> i" "i < int (rows M)" "0 \<le> j" "j < int (cols M)"
  shows "mcoeff M i j = Inr (elems M (nat i) (nat j))"
  using assms by (simp add: mcoeff_def in_range_def)

lemma aiem_pair_step:
  assumes wf: "well_formed n d" and dims: "aiem_dims n st"
    and A: "0 \<le> A" "A < int n" and B: "0 \<le> B" "B < int n"
  shows "\<exists>st'. aiem_pair d A B st = Inr st' \<and> aiem_dims n st' \<and>
           set (hamiltonian st) \<subseteq> set (hamiltonian st') \<and>
           (E st = NaN \<longrightarrow> E st' = NaN) \<and>
           (coincide d (nat A) (nat B) \<longrightarrow>
              E st' = NaN \<and> ([(A, ''X''), (B, ''X'')], NaN) \<in> set (hamiltonian st'))"
proof -
  let ?S = "half_sum (dipoleGS d) (dipoleES d)"
  let ?D = "half_difference (dipoleGS d) (dipoleES d)"
  have r: "rows ?S = n" "rows ?D = n" "rows (dipoleT d) = n" "rows (com d) = n"
    "cols ?S = 3" "cols ?D = 3" "cols (dipoleT d) = 3" "cols (com d) = 3"
    using wf by (simp_all add: well_formed_def half_sum_def half_difference_def)
  have AB: "A < int (rows ?S)" "A < int (rows ?D)" "A < int (rows (dipoleT d))" "A < int (rows (com d))"
    "B < int (rows ?S)" "B < int (rows ?D)" "B < int (rows (dipoleT d))" "B < int (rows (com d))"
    using A B r by simp_all
  have tb: "\<exists>v. twoBodyH_rows (com d) M1 i M2 j a b = Inr v \<and>
      (cols M1 = 3 \<and> cols M2 = 3 \<and> (\<forall>k < 3. \<exists>x. elems (com d) (nat a) k = Num x \<and> elems (com d) (nat b) k = Num x) \<longrightarrow> v = NaN)"
    if "0 \<le> i" "i < int (rows M1)" "0 \<le> j" "j < int (rows M2)"
      "0 \<le> a" "a < int (rows (com d))" "0 \<le> b" "b < int (rows (com d))" for M1 i M2 j a b
    using twoBodyH_rows_ok [OF that] twoBodyH_rows_coincide [OF that _ _ r(8)] by auto
  have sym: "\<forall>k < 3. \<exists>x. elems (com d) (nat B) k = Num x \<and> elems (com d) (nat A) k = Num x"
    if "coincide d (nat A) (nat B)"
    using that by (auto simp: coincide_def)
  obtain e where e: "twoBodyH_rows (com d) ?S A ?S B A B = Inr e" "coincide d (nat A) (nat B) \<longrightarrow> e = NaN"
    using tb [OF A(1) AB(1) B(1) AB(5) A(1) AB(4) B(1) AB(8)] r(5) by (auto simp: coincide_def)
  obtain x1 where x1: "twoBodyH_rows (com d) (dipoleT d) A ?S B A B = Inr x1"
    using tb [OF A(1) AB(3) B(1) AB(5) A(1) AB(4) B(1) AB(8)] by blast
  obtain x2 where x2: "twoBodyH_rows (com d) ?S B (dipoleT d) A B A = Inr x2"
    using tb [OF B(1) AB(5) A(1) AB(3) B(1) AB(8) A(1) AB(4)] by blast
  obtain z1 where z1: "twoBodyH_rows (com d) ?S A ?D B A B = Inr z1"
    using tb [OF A(1) AB(1) B(1) AB(6) A(1) AB(4) B(1) AB(8)] by blast
  obtain z2 where z2: "twoBodyH_rows (com d) ?D B ?S A B A = Inr z2"
    using tb [OF B(1) AB(6) A(1) AB(1) B(1) AB(8) A(1) AB(4)] by blast
  obtain xx where xx: "twoBodyH_rows (com d) (dipoleT d) A (dipoleT d) B A B = Inr xx"
      "coincide d (nat A) (nat B) \<longrightarrow> xx = NaN"
    using tb [OF A(1) AB(3) B(1) AB(7) A(1) AB(4) B(1) AB(8)] r(7) by (auto simp: coincide_def)
  obtain xz where xz: "twoBodyH_rows (com d) (dipoleT d) A ?D B A B = Inr xz"
    using tb [OF A(1) AB(3) B(1) AB(6) A(1) AB(4) B(1) AB(8)] by blast
  obtain zx where zx: "twoBodyH_rows (com d) ?D A (dipoleT d) B A B = Inr zx"
    using tb [OF A(1) AB(2) B(1) AB(7) A(1) AB(4) B(1) AB(8)] by blast
  obtain zz where zz: "twoBodyH_rows (com d) ?D A ?D B A B = Inr zz"
    using tb [OF A(1) AB(2) B(1) AB(6) A(1) AB(4) B(1) AB(8)] by blast
  have len: "A < int (length (X_A st))" "A < int (length (Z_A st))"
    using dims A by (simp_all add: aiem_dims_def)
  have m: "A < int (rows (XX_AB st))" "B < int (cols (XX_AB st))"
    "A < int (rows (XZ_AB st))" "B < int (cols (XZ_AB st))"
    "A < int (rows (ZX_AB st))" "B < int (cols (ZX_AB st))"
    "A < int (rows (ZZ_AB st))" "B < int (cols (ZZ_AB st))"
    using dims A B by (simp_all add: aiem_dims_def)
  have X1: "vadd_at (X_A st) A v = Inr ((X_A st)[nat A := dadd (X_A st ! nat A) v])" for v
    by (rule vadd_at_ok [OF A(1) len(1)])
  have X2: "vadd_at ((X_A st)[nat A := w]) A v =
              Inr ((X_A st)[nat A := w, nat A := dadd ((X_A st)[nat A := w] ! nat A) v])" for v w
    using len(1) by (intro vadd_at_ok [OF A(1)]) simp
  have Z1: "vadd_at (Z_A st) A v = Inr ((Z_A st)[nat A := dadd (Z_A st ! nat A) v])" for v
    by (rule vadd_at_ok [OF A(1) len(2)])
  have Z2: "vadd_at ((Z_A st)[nat A := w]) A v =
              Inr ((Z_A st)[nat A := w, nat A := dadd ((Z_A st)[nat A := w] ! nat A) v])" for v w
    using len(2) by (intro vadd_at_ok [OF A(1)]) simp
  show ?thesis
    using dims e(2) xx(2)
    by (auto simp add: aiem_pair_def Let_def e(1) x1 x2 z1 z2 xx(1) xz zx zz X1 X2 Z1 Z2
        mupdate_ok [OF A(1) m(1) B(1) m(2)] mupdate_ok [OF A(1) m(3) B(1) m(4)]
        mupdate_ok [OF A(1) m(5) B(1) m(6)] mupdate_ok [OF A(1) m(7) B(1) m(8)]
        aiem_dims_def)
qed

lemma pairs_nth_in_range:
  assumes "isCyclic self" and "2 \<le> nChromophores self" and "A < nat (nChromophores self)"
    and "B \<in> set (pairs self ! A)"
  shows "0 \<le> B \<and> B < int (nat (nChromophores self))"
proof -
  have "pairs self ! A \<in> set (pairs self)"
    using assms(3) by (simp add: pairs_def)
  from pairs_cyclic_in_range [OF assms(1,2) this assms(4)] show ?thesis
    by simp
qed

lemma aiem_site_step:
  assumes ring: "isCyclic self" "2 \<le> nChromophores self"
    and wf: "well_formed (nat (nChromophores self)) d"
    and dims: "aiem_dims (nat (nChromophores self)) st"
    and A: "A < nat (nChromophores self)"
  shows "\<exists>st'. aiem_site self d A st = Inr st' \<and> aiem_dims (nat (nChromophores self)) st' \<and>
           ((E st = NaN \<and> ([(int A0, ''X''), (B0, ''X'')], NaN) \<in> set (hamiltonian st)) \<or>
            (A = A0 \<and> B0 \<in> set (pairs self ! A0) \<and> coincide d A0 (nat B0)) \<longrightarrow>
            E st' = NaN \<and> ([(int A0, ''X''), (B0, ''X'')], NaN) \<in> set (hamiltonian st'))"
proof -
  let ?n = "nat (nChromophores self)"
  let ?P = "\<lambda>st. E st = NaN \<and> ([(int A0, ''X''), (B0, ''X'')], NaN) \<in> set (hamiltonian st)"
  let ?C = "\<lambda>B. A = A0 \<and> B = B0 \<and> coincide d A0 (nat B0)"
  have step: "\<exists>st'. aiem_pair d (int A) B st = Inr st' \<and> aiem_dims ?n st' \<and> (?P st \<or> ?C B \<longrightarrow> ?P st')"
    if "B \<in> set (pairs self ! A)" "aiem_dims ?n st" for B st
  proof -
    have B: "0 \<le> B" "B < int ?n"
      using pairs_nth_in_range [OF ring A that(1)] by simp_all
    have A': "0 \<le> int A" "int A < int ?n"
      using A by linarith+
    from aiem_pair_step [OF wf that(2) A' B] show ?thesis
      by auto
  qed
  from efold_establish [where I = "aiem_dims ?n" and P = ?P and C = ?C, OF dims step]
  obtain st1 where st1: "efold (aiem_pair d (int A)) (pairs self ! A) st = Inr st1"
      "aiem_dims ?n st1" "?P st \<or> (\<exists>B\<in>set (pairs self ! A). ?C B) \<longrightarrow> ?P st1"
    by blast
  have l: "length (Z_A st1) = ?n" "length (X_A st1) = ?n"
    using st1(2) by (simp_all add: aiem_dims_def)
  have "int A < int (length (Z_A st1))" "int A < int (length (X_A st1))"
    unfolding l using A by linarith+
  then have "aiem_site self d A st =
      Inr (st1\<lparr>hamiltonian := hamiltonian st1 @
                  [([(int A, ''Z'')], Z_A st1 ! A), ([(int A, ''X'')], X_A st1 ! A)]\<rparr>)"
    by (simp add: aiem_site_def st1(1) vcoeff_def)
  moreover have "aiem_dims ?n (st1\<lparr>hamiltonian := h\<rparr>)" for h
    using st1(2) by (simp add: aiem_dims_def)
  ultimately show ?thesis
    using st1(3) by auto
qed

lemma aiem_coincide:
  assumes ring: "isCyclic self" "2 \<le> nChromophores self"
    and wf: "well_formed (nat (nChromophores self)) d"
    and A0: "A0 < nat (nChromophores self)" "B0 \<in> set (pairs self ! A0)"
      "coincide d A0 (nat B0)"
  shows "\<exists>st. aiem self d = Inr st \<and> aiem_dims (nat (nChromophores self)) st \<and>
           E st = NaN \<and> ([(int A0, ''X''), (B0, ''X'')], NaN) \<in> set (hamiltonian st) \<and>
           ([], NaN) \<in> set (hamiltonian st)"
proof -
  let ?n = "nat (nChromophores self)"
  let ?P = "\<lambda>st. E st = NaN \<and> ([(int A0, ''X''), (B0, ''X'')], NaN) \<in> set (hamiltonian st)"
  let ?C = "\<lambda>A. A = A0 \<and> B0 \<in> set (pairs self ! A0) \<and> coincide d A0 (nat B0)"
  define Z where "Z = \<lparr>rows = ?n, cols = ?n, elems = (\<lambda>i j. Num 0)\<rparr>"
  define st0 where "st0 = \<lparr>E = Num 0,
                  X_A = replicate ?n (Num 0),
                  Z_A = map (\<lambda>(g, e). ddiv (dsub g e) (Num 2))
                          (zip (energiesGS d) (energiesES d)),
                  XX_AB = Z, XZ_AB = Z, ZX_AB = Z, ZZ_AB = Z, hamiltonian = []\<rparr>"
  have z: "mconst (nChromophores self) (nChromophores self) (Num 0) = Inr Z"
    using ring(2) by (simp add: mconst_def Z_def)
  have d0: "aiem_dims ?n st0"
    using wf by (simp add: aiem_dims_def st0_def Z_def well_formed_def)
  have step: "\<exists>st'. aiem_site self d A st = Inr st' \<and> aiem_dims ?n st' \<and> (?P st \<or> ?C A \<longrightarrow> ?P st')"
    if "A \<in> set [0..<?n]" "aiem_dims ?n st" for A st
    using aiem_site_step [OF ring wf that(2), of A A0 B0] that(1) by simp
  from efold_establish [where I = "aiem_dims ?n" and P = ?P and C = ?C, OF d0 step]
  obtain st1 where st1: "efold (aiem_site self d) [0..<?n] st0 = Inr st1"
      "aiem_dims ?n st1" "?P st0 \<or> (\<exists>A\<in>set [0..<?n]. ?C A) \<longrightarrow> ?P st1"
    by blast
  have P: "?P st1"
    using st1(3) A0 by auto
  have "aiem self d = Inr (st1\<lparr>hamiltonian := hamiltonian st1 @ [([], E st1)]\<rparr>)"
    by (simp add: aiem_def z Let_def st1(1) flip: st0_def)
  moreover have "aiem_dims ?n (st1\<lparr>hamiltonian := h\<rparr>)" for h
    using st1(2) by (simp add: aiem_dims_def)
  ultimately show ?thesis
    using P by auto
qed

lemma cis_diagonal_pair_step:
  assumes "aiem_dims n st" and "0 \<le> A" "A < int n" and "0 \<le> B" "B < int n"
    and "cis_inv n c M"
  shows "\<exists>M'. cis_diagonal_pair st A B M = Inr M' \<and> cis_inv n c M'"
proof -
  have zz: "A < int (rows (ZZ_AB st))" "B < int (cols (ZZ_AB st))"
    "B < int (rows (ZZ_AB st))" "A < int (cols (ZZ_AB st))"
    using assms(1,3,5) by (simp_all add: aiem_dims_def)
  have m: "0 \<le> A + 1" "A + 1 < int (rows M)" "A + 1 < int (cols M)"
    using assms(2,3,6) by (simp_all add: cis_inv_def)
  have "nat (A + 1) \<noteq> 0"
    using assms(2) by simp
  then show ?thesis
    using assms(6)
    by (simp add: cis_diagonal_pair_def mcoeff_ok [OF assms(2) zz(1) assms(4) zz(2)]
        mcoeff_ok [OF assms(4) zz(3) assms(2) zz(4)] mcoeff_ok [OF m(1,2) m(1) m(3)]
        mupdate_ok [OF m(1,2) m(1) m(3)] cis_inv_def)
qed

lemma cis_reference_pair_step:
  assumes "aiem_dims n st" and "0 \<le> A" "A < int n" and "0 \<le> B" "B < int n"
    and "cis_inv n c M"
  shows "\<exists>M'. cis_reference_pair st A B M = Inr M' \<and> cis_inv n c M'"
proof -
  have xz: "A < int (rows (XZ_AB st))" "B < int (cols (XZ_AB st))"
    "B < int (rows (ZX_AB st))" "A < int (cols (ZX_AB st))"
    using assms(1,3,5) by (simp_all add: aiem_dims_def)
  have m: "0 \<le> A + 1" "A + 1 < int (rows M)" "(0::int) \<le> 0" "0 < int (cols M)"
    using assms(2,3,6) by (simp_all add: cis_inv_def)
  have "nat (A + 1) \<noteq> 0"
    using assms(2) by simp
  then show ?thesis
    using assms(6)
    by (simp add: cis_reference_pair_def mcoeff_ok [OF assms(2) xz(1) assms(4) xz(2)]
        mcoeff_ok [OF assms(4) xz(3) assms(2) xz(4)] madd_at_def mcoeff_ok [OF m]
        mupdate_ok [OF m] cis_inv_def)
qed

lemma cis_singles_pair_step:
  assumes "aiem_dims n st" and "0 \<le> A" "A < int n" and "0 \<le> B" "B < int n"
    and "cis_inv n c M"
  shows "\<exists>M'. cis_singles_pair st A B M = Inr M' \<and> cis_inv n c M'"
proof -
  have xx: "A < int (rows (XX_AB st))" "B < int (cols (XX_AB st))"
    using assms(1,3,5) by (simp_all add: aiem_dims_def)
  have m: "0 \<le> A + 1" "A + 1 < int (rows M)" "0 \<le> B + 1" "B + 1 < int (cols M)"
    using assms(2-6) by (simp_all add: cis_inv_def)
  have "nat (A + 1) \<noteq> 0"
    using assms(2) by simp
  then show ?thesis
    using assms(6)
    by (simp add: cis_singles_pair_def mcoeff_ok [OF assms(2) xx(1) assms(4) xx(2)]
        mupdate_ok [OF m] cis_inv_def)
qed

lemma cis_diagonal_step:
  assumes ring: "isCyclic self" "2 \<le> nChromophores self"
    and dims: "aiem_dims (nat (nChromophores self)) st"
    and A: "A < nat (nChromophores self)"
    and inv: "cis_inv (nat (nChromophores self)) c M"
  shows "\<exists>M'. cis_diagonal self st E_ref A M = Inr M' \<and> cis_inv (nat (nChromophores self)) c M'"
proof -
  let ?n = "nat (nChromophores self)"
  have A': "0 \<le> int A" "int A < int ?n"
    using A by linarith+
  have l: "length (Z_A st) = ?n"
    using dims by (simp add: aiem_dims_def)
  have z: "vcoeff (Z_A st) (int A) = Inr (Z_A st ! A)"
    unfolding vcoeff_def l using A' by simp
  have m: "0 \<le> int A + 1" "int A + 1 < int (rows M)" "int A + 1 < int (cols M)"
    using A' inv by (simp_all add: cis_inv_def)
  define M1 where "M1 = M\<lparr>elems := (elems M)(nat (int A + 1) :=
      (elems M (nat (int A + 1)))(nat (int A + 1) := dsub E_ref (dmul (Num 2) (Z_A st ! A))))\<rparr>"
  have u: "mupdate M (int A + 1) (int A + 1) (dsub E_ref (dmul (Num 2) (Z_A st ! A))) = Inr M1"
    unfolding M1_def by (rule mupdate_ok [OF m(1,2) m(1) m(3)])
  have i1: "cis_inv ?n c M1"
    using inv by (simp add: cis_inv_def M1_def)
  have "\<exists>M'. efold (cis_diagonal_pair st (int A)) (pairs self ! A) M1 = Inr M' \<and> cis_inv ?n c M'"
  proof (rule efold_invariant [where I = "cis_inv ?n c", OF i1])
    fix B M
    assume "B \<in> set (pairs self ! A)" and "cis_inv ?n c M"
    then show "\<exists>M'. cis_diagonal_pair st (int A) B M = Inr M' \<and> cis_inv ?n c M'"
      using pairs_nth_in_range [OF ring A] cis_diagonal_pair_step [OF dims A'] by blast
  qed
  then show ?thesis
    by (simp add: cis_diagonal_def z u)
qed

lemma cis_reference_step:
  assumes ring: "isCyclic self" "2 \<le> nChromophores self"
    and dims: "aiem_dims (nat (nChromophores self)) st"
    and A: "A < nat (nChromophores self)"
    and inv: "cis_inv (nat (nChromophores self)) c M"
  shows "\<exists>M'. cis_reference self st A M = Inr M' \<and> cis_inv (nat (nChromophores self)) c M'"
proof -
  let ?n = "nat (nChromophores self)"
  have A': "0 \<le> int A" "int A < int ?n"
    using A by linarith+
  have l: "length (X_A st) = ?n"
    using dims by (simp add: aiem_dims_def)
  have x: "vcoeff (X_A st) (int A) = Inr (X_A st ! A)"
    unfolding vcoeff_def l using A' by simp
  have m: "0 \<le> int A + 1" "int A + 1 < int (rows M)" "(0::int) \<le> 0" "0 < int (cols M)"
    using A' inv by (simp_all add: cis_inv_def)
  define M1 where "M1 = M\<lparr>elems := (elems M)(nat (int A + 1) :=
      (elems M (nat (int A + 1)))(nat 0 := X_A st ! A))\<rparr>"
  have u: "mupdate M (int A + 1) 0 (X_A st ! A) = Inr M1"
    unfolding M1_def by (rule mupdate_ok [OF m])
  have i1: "cis_inv ?n c M1"
    using inv by (simp add: cis_inv_def M1_def)
  have "\<exists>M'. efold (cis_reference_pair st (int A)) (pairs self ! A) M1 = Inr M' \<and> cis_inv ?n c M'"
  proof (rule efold_invariant [where I = "cis_inv ?n c", OF i1])
    fix B M
    assume "B \<in> set (pairs self ! A)" and "cis_inv ?n c M"
    then show "\<exists>M'. cis_reference_pair st (int A) B M = Inr M' \<and> cis_inv ?n c M'"
      using pairs_nth_in_range [OF ring A] cis_reference_pair_step [OF dims A'] by blast
  qed
  then obtain M2 where M2: "efold (cis_reference_pair st (int A)) (pairs self ! A) M1 = Inr M2"
      "cis_inv ?n c M2"
    by blast
  have m2: "0 \<le> int A + 1" "int A + 1 < int (rows M2)" "(0::int) \<le> 0" "0 < int (cols M2)"
    "0 < int (rows M2)" "int A + 1 < int (cols M2)"
    using A' M2(2) by (simp_all add: cis_inv_def)
  have "cis_reference self st A M =
      Inr (M2\<lparr>elems := (elems M2)(nat 0 := (elems M2 (nat 0))
             (nat (int A + 1) := elems M2 (nat (int A + 1)) (nat 0)))\<rparr>)"
    by (simp only: cis_reference_def x u M2(1) ebind_simps mcoeff_ok [OF m2(1-4)]
        mupdate_ok [OF m2(3) m2(5) m2(1) m2(6)])
  moreover have "cis_inv ?n c (M2\<lparr>elems := (elems M2)(nat 0 := (elems M2 (nat 0))
             (nat (int A + 1) := elems M2 (nat (int A + 1)) (nat 0)))\<rparr>)"
    using M2(2) by (simp add: cis_inv_def)
  ultimately show ?thesis by blast
qed

lemma cis_singles_step:
  assumes ring: "isCyclic self" "2 \<le> nChromophores self"
    and dims: "aiem_dims (nat (nChromophores self)) st"
    and A: "A < nat (nChromophores self)"
    and inv: "cis_inv (nat (nChromophores self)) c M"
  shows "\<exists>M'. cis_singles self st A M = Inr M' \<and> cis_inv (nat (nChromophores self)) c M'"
proof -
  let ?n = "nat (nChromophores self)"
  have A': "0 \<le> int A" "int A < int ?n"
    using A by linarith+
  show ?thesis
    unfolding cis_singles_def
  proof (rule efold_invariant [where I = "cis_inv ?n c", OF inv])
    fix B M
    assume "B \<in> set (pairs self ! A)" and "cis_inv ?n c M"
    then show "\<exists>M'. cis_singles_pair st (int A) B M = Inr M' \<and> cis_inv ?n c M'"
      using pairs_nth_in_range [OF ring A] cis_singles_pair_step [OF dims A'] by blast
  qed
qed

lemma cis_matrix_origin:
  assumes ring: "isCyclic self" "2 \<le> nChromophores self"
    and n: "nStates self = nChromophores self + 1"
    and dims: "aiem_dims (nat (nChromophores self)) st"
  shows "\<exists>M. cis_matrix self st = Inr M \<and> rows M = nat (nStates self) \<and>
           cols M = nat (nStates self) \<and>
           elems M 0 0 = dadd (dadd (E st) (vsum (Z_A st))) (dmul (Num (1/2)) (msum (ZZ_AB st)))"
proof -
  let ?n = "nat (nChromophores self)"
  define c where "c = dadd (dadd (E st) (vsum (Z_A st))) (dmul (Num (1/2)) (msum (ZZ_AB st)))"
  define M0 where "M0 = \<lparr>rows = nat (nStates self), cols = nat (nStates self), elems = (\<lambda>i j. Num 0)\<rparr>"
  define M1 where "M1 = M0\<lparr>elems := (elems M0)(nat 0 := (elems M0 (nat 0))(nat 0 := c))\<rparr>"
  have z: "mconst (nStates self) (nStates self) (Num 0) = Inr M0"
    using ring(2) n by (simp add: mconst_def M0_def)
  have "(0::int) \<le> 0" "0 < int (rows M0)" "0 < int (cols M0)"
    using ring(2) n by (simp_all add: M0_def)
  then have u: "mupdate M0 0 0 c = Inr M1"
    unfolding M1_def by (intro mupdate_ok)
  have sz: "nat (nStates self) = ?n + 1"
    using ring(2) n by simp
  have i1: "cis_inv ?n c M1"
    by (simp add: cis_inv_def M1_def M0_def sz)
  have "\<exists>M2. efold (cis_diagonal self st c) [0..<?n] M1 = Inr M2 \<and> cis_inv ?n c M2"
    by (rule efold_invariant [where I = "cis_inv ?n c", OF i1])
      (use cis_diagonal_step [OF ring dims] in auto)
  then obtain M2 where M2: "efold (cis_diagonal self st c) [0..<?n] M1 = Inr M2" "cis_inv ?n c M2"
    by blast
  have "\<exists>M3. efold (cis_reference self st) [0..<?n] M2 = Inr M3 \<and> cis_inv ?n c M3"
    by (rule efold_invariant [where I = "cis_inv ?n c", OF M2(2)])
      (use cis_reference_step [OF ring dims] in auto)
  then obtain M3 where M3: "efold (cis_reference self st) [0..<?n] M2 = Inr M3" "cis_inv ?n c M3"
    by blast
  have "\<exists>M4. efold (cis_singles self st) [0..<?n] M3 = Inr M4 \<and> cis_inv ?n c M4"
    by (rule efold_invariant [where I = "cis_inv ?n c", OF M3(2)])
      (use cis_singles_step [OF ring dims] in auto)
  then obtain M4 where M4: "efold (cis_singles self st) [0..<?n] M3 = Inr M4" "cis_inv ?n c M4"
    by blast
  have "cis_matrix self st = Inr M4"
    by (simp add: cis_matrix_def z Let_def u M2(1) M3(1) M4(1) flip: c_def)
  then show ?thesis
    using M4(2) sz by (simp add: cis_inv_def c_def)
qed

lemma sqrt2_cancel: "((p + q) / sqrt 2 - (p - q) / sqrt 2) / sqrt 2 = (q::real)"
proof -
  have "((p + q) / sqrt 2 - (p - q) / sqrt 2) = 2 * q / sqrt 2"
    by (simp add: field_simps)
  then have "((p + q) / sqrt 2 - (p - q) / sqrt 2) / sqrt 2 = 2 * q / (sqrt 2 * sqrt 2)"
    by simp
  then show ?thesis by simp
qed

text \<open>With the probing backend, the interference term of the example is the first angle of \<open>b\<close>.\<close>

lemma example_term:
  "interference_term example_angled probing_services entangler x a b = Num (real b + 1)"
proof -
  have "ddiv (dsub (ddiv (dadd (Num p) (Num q)) (dsqrt (Num 2)))
                   (ddiv (dsub (Num p) (Num q)) (dsqrt (Num 2)))) (dsqrt (Num 2)) = Num q"
    for p q
    using sqrt2_cancel [of p q] by simp
  from this [of "real a + 1" "real b + 1"] show ?thesis
    by (simp add: interference_term_def probing_services_def first_angle_def
        superposition_circuit_def state_preparation_instructions_def
        superposition_angles_def example_angled_def example_object_def upt_rec Let_def
        add.commute)
qed

section \<open>The neighbour topology\<close>

text \<open>
  C2. The claim: for every number of sites \<open>N \<ge> 2\<close> and both values of the cyclic flag,
  every neighbour index lies in \<open>0..N-1\<close>, and on the linear chain the sites 0 and
  \<open>N-1\<close> have their single adjacent neighbour only. The code does otherwise: for three
  sites on a linear chain, the neighbour list of site 0 holds the index \<open>-1\<close>, and the list
  of the last site holds the wrap-around index 0.
\<close>

theorem pairs_linear_three_sites:
  "pairs (example_object 3 False) = [[- 1, 1], [0, 2], [1, 0]]"
  by (simp add: pairs_def pairs_of_def example_object_def upt_rec)

section \<open>The entangler's parameters\<close>

text \<open>
  C6, as the claim states it: for four sites on a linear chain the entangler would have
  \<open>N + 2 * 2 * 4\<close> parameters. It does not.
\<close>

theorem entangler_linear_count_counterexample:
  "nVariables (entanglerCircuit (example_object 4 False)) \<noteq> 4 + 2 * 2 * 4"
  by (simp add: example_object_def entanglerCircuit_def nVariables_def first_ry_def
      entanglerGate_def addVariable_def addInstruction_def createComposite_def
      NPARAMSENTANGLER_def upt_rec Let_def)

text \<open>
  C6, amended: for four sites the entangler has \<open>N + 3 * 4\<close> parameters on a linear chain
  (two blocks in the first layer, one in the second, four parameters each), and exactly
  one more block of four parameters on a ring.
\<close>

theorem entangler_parameter_count:
  assumes "nChromophores self = 4"
  shows "nVariables (entanglerCircuit self) =
           (if isCyclic self then 4 + 3 * 4 + 4 else 4 + 3 * 4)"
  using assms
  by (simp add: entanglerCircuit_def nVariables_def first_ry_def entanglerGate_def
      addVariable_def addInstruction_def createComposite_def NPARAMSENTANGLER_def
      upt_rec Let_def)

theorem entangler_parameter_count_witness:
  "nChromophores (example_object 4 True) = 4 \<and>
   nVariables (entanglerCircuit (example_object 4 True)) = 20 \<and>
   nChromophores (example_object 4 False) = 4 \<and>
   nVariables (entanglerCircuit (example_object 4 False)) = 16"
  using entangler_parameter_count [of "example_object 4 True"]
    entangler_parameter_count [of "example_object 4 False"]
  by (simp add: example_object_def)

section \<open>The circuit builders read the site count and the topology only\<close>

text \<open>
  C9. Two invocations of the state-preparation builder with the same angle vector, and
  two invocations of the entangler builder, give the same composite instruction (the
  same instructions and the same variables) whenever the two objects agree on the number
  of sites and on the cyclic flag, whatever the other members hold.
\<close>

theorem circuit_builders_deterministic:
  assumes "nChromophores s = nChromophores s'" and "isCyclic s = isCyclic s'"
  shows "statePreparationCircuit s angles = statePreparationCircuit s' angles \<and>
         entanglerCircuit s = entanglerCircuit s'"
  using assms by (simp add: statePreparationCircuit_def entanglerCircuit_def Let_def)

theorem circuit_builders_deterministic_witness:
  "nChromophores (example_object 2 True) =
     nChromophores ((example_object 2 True)\<lparr>nStates := 2, logLevel := 3\<rparr>) \<and>
   isCyclic (example_object 2 True) =
     isCyclic ((example_object 2 True)\<lparr>nStates := 2, logLevel := 3\<rparr>) \<and>
   example_object 2 True \<noteq> (example_object 2 True)\<lparr>nStates := 2, logLevel := 3\<rparr> \<and>
   statePreparationCircuit (example_object 2 True) [Num 1, Num 0] =
     statePreparationCircuit ((example_object 2 True)\<lparr>nStates := 2, logLevel := 3\<rparr>)
       [Num 1, Num 0] \<and>
   entanglerCircuit (example_object 2 True) =
     entanglerCircuit ((example_object 2 True)\<lparr>nStates := 2, logLevel := 3\<rparr>)"
  using circuit_builders_deterministic
    [of "example_object 2 True" "(example_object 2 True)\<lparr>nStates := 2, logLevel := 3\<rparr>"
        "[Num 1, Num 0]"]
  by (simp add: example_object_def)

section \<open>The interference stage\<close>

text \<open>
  C4. On a prepared object and a matrix of \<open>nStates\<close> rows and columns, the interference
  stage returns a matrix of the same size in which, for every pair of states \<open>a < b\<close>,
  both entries \<open>(a, b)\<close> and \<open>(b, a)\<close> are the interference term of the pair:
  \<open>(plus - minus) / sqrt 2\<close> for the expectation values of the Hamiltonian on the state
  preparation for \<open>(angles_a + angles_b) / sqrt 2\<close> and for
  \<open>(angles_a - angles_b) / sqrt 2\<close>, each followed by the entangler, at the optimized
  parameters. The matrix is symmetric, and the diagonal is left as it was.
\<close>

theorem interference_postcondition:
  assumes "prepared self"
    and "rows M0 = nat (nStates self)" and "cols M0 = nat (nStates self)"
  shows "\<exists>M. interference self sv entangler x M0 = Inr M \<and>
           rows M = rows M0 \<and> cols M = cols M0 \<and>
           (\<forall>a b. a < b \<and> int b < nStates self \<longrightarrow>
              elems M a b = interference_term self sv entangler x a b \<and>
              elems M b a = interference_term self sv entangler x a b) \<and>
           (\<forall>i j. int i < nStates self \<and> int j < nStates self \<and> i \<noteq> j \<longrightarrow>
              elems M i j = elems M j i) \<and>
           (\<forall>i. elems M i i = elems M0 i i)"
proof -
  have as: "\<forall>a\<in>set [0..<nat (nStates self - 1)]. int a < nStates self"
    by auto
  from interference_outer [OF assms(1) as assms(2,3)] obtain M where
    M: "interference self sv entangler x M0 = Inr M"
      "rows M = rows M0" "cols M = cols M0"
      "\<forall>i j. elems M i j =
              (if i < j \<and> i \<in> set [0..<nat (nStates self - 1)] \<and> int j < nStates self
               then interference_term self sv entangler x i j
               else if j < i \<and> j \<in> set [0..<nat (nStates self - 1)] \<and> int i < nStates self
               then interference_term self sv entangler x j i
               else elems M0 i j)"
    unfolding interference_def by blast
  have mem: "a \<in> set [0..<nat (nStates self - 1)]" if "a < b" "int b < nStates self" for a b
    using that by auto
  have pair: "elems M a b = interference_term self sv entangler x a b \<and>
              elems M b a = interference_term self sv entangler x a b"
    if "a < b" "int b < nStates self" for a b
    using M(4) mem [OF that] that by auto
  have sym: "elems M i j = elems M j i"
    if "int i < nStates self" "int j < nStates self" "i \<noteq> j" for i j
  proof (cases "i < j")
    case True
    then show ?thesis using pair [of i j] that by simp
  next
    case False
    then have "j < i" using that by simp
    then show ?thesis using pair [of j i] that by simp
  qed
  have "elems M i i = elems M0 i i" for i
    using M(4) by simp
  with M(1,2,3) pair sym show ?thesis by blast
qed

theorem interference_postcondition_witness:
  "prepared example_angled \<and>
   rows example_matrix = nat (nStates example_angled) \<and>
   cols example_matrix = nat (nStates example_angled) \<and>
   (\<exists>M. interference example_angled probing_services
          (entanglerCircuit example_angled) [Num 0] example_matrix = Inr M \<and>
        entries M = [[Num 7, Num 2, Num 3], [Num 2, Num 7, Num 3], [Num 3, Num 3, Num 7]])"
proof -
  have p: "prepared example_angled"
    by (simp add: prepared_def example_angled_def example_object_def)
  have n: "nStates example_angled = 3"
    by (simp add: example_angled_def example_object_def)
  have d: "rows example_matrix = nat (nStates example_angled)"
    "cols example_matrix = nat (nStates example_angled)"
    by (simp_all add: n example_matrix_def)
  from interference_postcondition
    [OF p d, of probing_services "entanglerCircuit example_angled" "[Num 0]"]
  obtain M where
    M: "interference example_angled probing_services
          (entanglerCircuit example_angled) [Num 0] example_matrix = Inr M"
      "rows M = rows example_matrix" "cols M = cols example_matrix"
      "\<forall>a b. a < b \<and> int b < nStates example_angled \<longrightarrow>
         elems M a b = interference_term example_angled probing_services
                         (entanglerCircuit example_angled) [Num 0] a b \<and>
         elems M b a = interference_term example_angled probing_services
                         (entanglerCircuit example_angled) [Num 0] a b"
      "\<forall>i. elems M i i = elems example_matrix i i"
    by blast
  have off: "elems M 0 1 = Num 2" "elems M 1 0 = Num 2" "elems M 0 2 = Num 3"
    "elems M 2 0 = Num 3" "elems M 1 2 = Num 3" "elems M 2 1 = Num 3"
    using M(4) by (simp_all add: n example_term)
  have dia: "elems M 0 0 = Num 7" "elems M 1 1 = Num 7" "elems M 2 2 = Num 7"
    using M(5) by (simp_all add: example_matrix_def)
  have "entries M = [[Num 7, Num 2, Num 3], [Num 2, Num 7, Num 3], [Num 3, Num 3, Num 7]]"
    using off dia
    by (simp add: entries_def M(2,3) example_matrix_def upt_rec eval_nat_numeral)
  with p d M(1) show ?thesis
    by blast
qed

section \<open>The objective\<close>

text \<open>
  C10. Without a gradient strategy, a call of the objective on a prepared object with a
  non-empty parameter vector \<open>x\<close> returns, and the gradient vector it leaves in \<open>dx\<close>
  is the zero vector of the length of \<open>x\<close>, whatever \<open>dx\<close> held before.
\<close>

theorem objective_zero_gradient_without_strategy:
  assumes "prepared self" and "gradientStrategy sv = None" and "x \<noteq> []"
    and "length (diagonal os) = nat (nStates self)"
  shows "\<exists>averageEnergy os'.
           objective self sv entangler (x, dx) os =
             Inr (averageEnergy, replicate (length x) (Num 0), os')"
proof -
  have "\<forall>s\<in>set [0..<nat (nStates self)]. int s < nStates self"
    by auto
  from state_loop_no_gradient [OF assms(1,2) this assms(4)]
  obtain e' os1 where
    "efold (state_body self sv entangler x dx) [0..<nat (nStates self)]
       (Num 0, replicate (length x) (Num 0), os) = Inr (e', replicate (length x) (Num 0), os1)"
    by blast
  then show ?thesis
    using assms(3) by (simp add: objective_def Let_def)
qed

theorem objective_zero_gradient_without_strategy_witness:
  "prepared example_prepared \<and> gradientStrategy (example_services (Num 1)) = None \<and>
   [Num 0, Num 0] \<noteq> [] \<and>
   length (diagonal example_state) = nat (nStates example_prepared) \<and>
   (\<exists>averageEnergy os'.
      objective example_prepared (example_services (Num 1))
        (entanglerCircuit example_prepared) ([Num 0, Num 0], [Num 5]) example_state =
      Inr (averageEnergy, [Num 0, Num 0], os'))"
  using objective_zero_gradient_without_strategy
    [of example_prepared "example_services (Num 1)" "[Num 0, Num 0]" example_state
        "entanglerCircuit example_prepared" "[Num 5]"]
  by (simp add: prepared_def example_prepared_def example_object_def example_services_def
      example_state_def)

text \<open>
  C1. The claim: the diagonal of the entangled Hamiltonian is overwritten with the
  per-state energies of a call exactly when the average of the call is lower than the
  best average of the calls before it, so that the first call always records its
  snapshot. The code compares with \<open>oldAverageEnergy\<close>, which starts at \<open>0.0\<close>: when the
  optimizer makes one call in which every state has the energy 1, the call returns, the
  vector \<open>diagonal\<close> holds the three energies, \<open>oldAverageEnergy\<close> is still 0, and the
  diagonal of the matrix is still zero.
\<close>

theorem first_call_snapshot_not_recorded:
  "recorded
     (ebind (initial_state example_prepared)
        (objective_calls example_prepared (example_services (Num 1))
           (entanglerCircuit example_prepared) [([Num 0], [])])) =
   Inr ([Num 1, Num 1, Num 1], Num 0, [Num 0, Num 0, Num 0])"
  by (simp add: recorded_def initial_state_def mconst_def objective_calls_def
      objective_def state_body_def example_prepared_def example_services_def
      example_object_def mcol_def full_circuit_def statePreparationCircuit_def fy_gate_def
      vcoeff_def vset_def vqeWrapper_def upt_rec Let_def eval_nat_numeral)

section \<open>Preprocessing\<close>

text \<open>
  C3. The claim: for every data set, number of sites and topology flag, the reference
  matrix that the Hamiltonian builder makes is symmetric. For three sites on a linear
  chain the builder makes no matrix: the neighbour \<open>-1\<close> of site 0 is used as a row
  index, which is out of range.
\<close>

theorem hamiltonian_builder_linear_three_sites:
  "hamiltonian_builder (example_object 3 False) (example_data 3) = Inl IndexOutOfRange"
  by (rule hamiltonian_builder_linear_fails) (simp_all add: example_object_def)

text \<open>
  C7, as the claim states it: for coupled sites at the same position, preprocessing
  would report a fatal data error and put no not-a-number value into the Hamiltonian or
  the reference matrix. For two sites of a ring at the same position the builder reports
  no error, and all 21 coefficients of the Hamiltonian and all 9 entries of the reference
  matrix are not-a-number values.
\<close>

theorem coincident_sites_counterexample:
  "built_coefficients
     (hamiltonian_builder (example_object 2 True) (coincident_data 2)) =
   Inr (replicate 21 NaN, replicate 3 (replicate 3 NaN))"
  by (simp add: built_coefficients_def entries_def hamiltonian_builder_def aiem_def
      mconst_def example_object_def example_data_def coincident_data_def aiem_site_def
      pairs_def pairs_of_def aiem_pair_def twoBodyH_rows_def mrow_def half_sum_def
      half_difference_def Let_def upt_rec vsub_def vadd_at_def vcoeff_def vset_def
      mupdate_def in_range_def cis_matrix_def cis_diagonal_def cis_diagonal_pair_def
      cis_reference_def cis_reference_pair_def cis_singles_def cis_singles_pair_def
      mcoeff_def madd_at_def vsum_def msum_def eval_nat_numeral)

text \<open>
  C7, amended: on a ring of at least two sites with well-formed data, for every pair of
  coupled sites \<open>A\<close> and \<open>B\<close> at the same position the Hamiltonian builder reports no
  error, and the not-a-number value of the coupling formula goes into the Hamiltonian
  (the coefficient of the term \<open>X\<close> on \<open>A\<close> and \<open>X\<close> on \<open>B\<close>, and the constant term) and
  into the reference matrix (its first entry).
\<close>

theorem coincident_sites_propagate_NaN:
  assumes "isCyclic self" and "2 \<le> nChromophores self"
    and "nStates self = nChromophores self + 1"
    and "well_formed (nat (nChromophores self)) d"
    and "A < nat (nChromophores self)" and "B \<in> set (pairs self ! A)"
    and "coincide d A (nat B)"
  shows "\<exists>h M. hamiltonian_builder self d = Inr (h, M) \<and>
           ([(int A, ''X''), (B, ''X'')], NaN) \<in> set h \<and> ([], NaN) \<in> set h \<and>
           elems M 0 0 = NaN"
proof -
  from aiem_coincide [OF assms(1,2,4-7)] obtain st where
    st: "aiem self d = Inr st" "aiem_dims (nat (nChromophores self)) st" "E st = NaN"
      "([(int A, ''X''), (B, ''X'')], NaN) \<in> set (hamiltonian st)"
      "([], NaN) \<in> set (hamiltonian st)"
    by blast
  from cis_matrix_origin [OF assms(1-3) st(2)] obtain M where
    M: "cis_matrix self st = Inr M"
      "elems M 0 0 = dadd (dadd (E st) (vsum (Z_A st))) (dmul (Num (1/2)) (msum (ZZ_AB st)))"
    by blast
  have "elems M 0 0 = NaN"
    by (simp add: M(2) st(3))
  moreover have "hamiltonian_builder self d = Inr (hamiltonian st, M)"
    by (simp add: hamiltonian_builder_def st(1) M(1))
  ultimately show ?thesis
    using st(4,5) by blast
qed

theorem coincident_sites_propagate_NaN_witness:
  "isCyclic (example_object 2 True) \<and> 2 \<le> nChromophores (example_object 2 True) \<and>
   nStates (example_object 2 True) = nChromophores (example_object 2 True) + 1 \<and>
   well_formed (nat (nChromophores (example_object 2 True))) (coincident_data 2) \<and>
   0 < nat (nChromophores (example_object 2 True)) \<and>
   1 \<in> set (pairs (example_object 2 True) ! 0) \<and>
   coincide (coincident_data 2) 0 (nat 1) \<and>
   (\<exists>h M. hamiltonian_builder (example_object 2 True) (coincident_data 2) = Inr (h, M) \<and>
          ([(int 0, ''X''), (1, ''X'')], NaN) \<in> set h \<and> ([], NaN) \<in> set h \<and>
          elems M 0 0 = NaN)"
  using coincident_sites_propagate_NaN
    [of "example_object 2 True" "coincident_data 2" 0 1]
  by (simp add: example_object_def coincident_data_def example_data_def well_formed_def
      coincide_def pairs_def pairs_of_def upt_rec)

text \<open>
  C8. The claim: a data file that cannot be opened is reported as a configuration error,
  and preprocessing never goes on to parse. With the four required options and a file
  that cannot be opened, \<open>bad()\<close> is false, the error \<open>Cannot access data file.\<close> is not
  raised, the loop over the sites starts to read, and \<open>std::stod\<close> throws on the empty
  line.
\<close>

theorem initialize_missing_file:
  "initialize (example_object 0 False) example_parameters example_environment =
   Inl StodInvalidArgument"
  by (simp add: initialize_def example_parameters_def example_environment_def
      example_object_def mconst_def preProcessing_def open_ifstream_def bad_def
      read_data_def read_site_def getline_def read_energy_def after_colon_def Let_def
      upt_rec)

section \<open>The angle encoder\<close>

text \<open>
  C5. For at least one site and a coefficient matrix with one row more than there are
  sites, the angle encoder returns a matrix in which, for every state \<open>s\<close> and every angle
  index \<open>k\<close>, the entry is the arc cosine of the coefficient \<open>k\<close> of the column \<open>s\<close>
  divided by the norm of the column from \<open>k\<close> to its end, negated for the last index
  exactly when the last coefficient of the column is negative.
\<close>

theorem angle_encoder:
  assumes "1 \<le> nChromophores self" and "rows C = nat (nChromophores self) + 1"
    and "0 \<le> nStates self" and "nStates self \<le> int (cols C)"
  shows "\<exists>G. statePreparationAngles self C = Inr G \<and>
           rows G = nat (nChromophores self) \<and> cols G = nat (nStates self) \<and>
           (\<forall>s k. int s < nStates self \<and> int k < nChromophores self \<longrightarrow>
              elems G k s = encoded_angle (nChromophores self) C k s)"
proof -
  define G0 where
    "G0 = \<lparr>rows = nat (nChromophores self), cols = nat (nStates self), elems = (\<lambda>i j. Num 0)\<rparr>"
  have z: "mconst (nChromophores self) (nStates self) (Num 0) = Inr G0"
    using assms(1,3) by (simp add: mconst_def G0_def)
  have ss: "\<forall>s\<in>set [0..<nat (nStates self)]. s < cols C \<and> s < cols G0"
    using assms(4) by (auto simp: G0_def)
  have "rows G0 = nat (nChromophores self)"
    by (simp add: G0_def)
  from states_loop_effect [OF assms(1,2) ss this] obtain G where
    G: "efold (state_angles self C) [0..<nat (nStates self)] G0 = Inr G"
      "rows G = rows G0" "cols G = cols G0"
      "\<forall>i j. elems G i j =
              (if j \<in> set [0..<nat (nStates self)] \<and> int i < nChromophores self
               then encoded_angle (nChromophores self) C i j else elems G0 i j)"
    by blast
  have "statePreparationAngles self C = Inr G"
    by (simp add: statePreparationAngles_def z G(1))
  moreover have "rows G = nat (nChromophores self)" "cols G = nat (nStates self)"
    using G(2,3) by (simp_all add: G0_def)
  moreover have "elems G k s = encoded_angle (nChromophores self) C k s"
    if "int s < nStates self" "int k < nChromophores self" for s k
    using G(4) that by auto
  ultimately show ?thesis by blast
qed

theorem angle_encoder_witness:
  "1 \<le> nChromophores (example_object 1 False) \<and>
   rows example_eigenvectors = nat (nChromophores (example_object 1 False)) + 1 \<and>
   0 \<le> nStates (example_object 1 False) \<and>
   nStates (example_object 1 False) \<le> int (cols example_eigenvectors) \<and>
   (\<exists>G. statePreparationAngles (example_object 1 False) example_eigenvectors = Inr G \<and>
        rows G = nat (nChromophores (example_object 1 False)) \<and>
        cols G = nat (nStates (example_object 1 False)) \<and>
        (\<forall>s k. int s < nStates (example_object 1 False) \<and>
               int k < nChromophores (example_object 1 False) \<longrightarrow>
           elems G k s =
             encoded_angle (nChromophores (example_object 1 False)) example_eigenvectors k s))"
  using angle_encoder [of "example_object 1 False" example_eigenvectors]
  by (simp add: example_object_def example_eigenvectors_def)

end
